theory Spec2Isabelle
  imports Complex_Main "HOL-Library.Multiset"
begin

section \<open>Strings\<close>

text \<open>
  The trainer works on JavaScript strings. They are embedded as HOL strings and the three
  string methods the trainer calls are embedded on the 7-bit range: \<open>trim\<close> removes
  the ASCII white space characters (tab, line feed, vertical tab, form feed, carriage
  return, space) at both ends, \<open>toUpperCase\<close> and \<open>toLowerCase\<close> map the
  letters a-z and A-Z and leave every other character as it is. On strings of 7-bit
  characters this is what the JavaScript methods compute; the Unicode tables beyond that
  range are not part of the embedding.
\<close>

definition isSpace :: "char \<Rightarrow> bool" where
  "isSpace c \<longleftrightarrow>
     c = CHR 0x09 \<or> c = CHR 0x0A \<or> c = CHR 0x0B \<or> c = CHR 0x0C \<or> c = CHR 0x0D \<or> c = CHR '' ''"

definition trim :: "string \<Rightarrow> string" where
  "trim s = rev (dropWhile isSpace (rev (dropWhile isSpace s)))"

definition upper_char :: "char \<Rightarrow> char" where
  "upper_char c =
     (case map_of (zip ''abcdefghijklmnopqrstuvwxyz'' ''ABCDEFGHIJKLMNOPQRSTUVWXYZ'') c of
        None \<Rightarrow> c | Some u \<Rightarrow> u)"

definition lower_char :: "char \<Rightarrow> char" where
  "lower_char c =
     (case map_of (zip ''ABCDEFGHIJKLMNOPQRSTUVWXYZ'' ''abcdefghijklmnopqrstuvwxyz'') c of
        None \<Rightarrow> c | Some l \<Rightarrow> l)"

definition toUpperCase :: "string \<Rightarrow> string" where
  "toUpperCase s = map upper_char s"

definition toLowerCase :: "string \<Rightarrow> string" where
  "toLowerCase s = map lower_char s"

section \<open>Types of the trainer\<close>

text \<open>
  \<^verbatim>\<open>type Vocab = { EN: string; FR: string; EG?: string }\<close>: the optional field is
  \<open>None\<close> when the property is absent.
\<close>

record Vocab =
  EN :: string
  FR :: string
  EG :: "string option"

datatype Mode = flashcards | qcm | writing

datatype Direction = FR_EN | EN_FR

text \<open>
  \<open>clamp\<close>, on the integers the trainer passes (an index and a list length).
\<close>

definition clamp :: "int \<Rightarrow> int \<Rightarrow> int \<Rightarrow> int" where
  "clamp n lo hi = max lo (min hi n)"

section \<open>Entry normalizer\<close>

text \<open>
  A raw record is a JavaScript object with string values, as the CSV decoder produces it
  with \<open>header: true\<close>. It is embedded as the list of its own properties in the order
  of \<open>Object.keys\<close>, each key with its value, so that \<open>row[k]\<close> for a key \<open>k\<close> of
  \<open>Object.keys(row)\<close> is the value paired with \<open>k\<close>. \<open>None\<close> stands for a falsy
  argument (\<open>null\<close>, \<open>undefined\<close>).
\<close>

type_synonym raw_row = "(string \<times> string) list"

text \<open>
  \<^verbatim>\<open>Object.keys(row).reduce((acc, k) => { acc[k.trim().toUpperCase()] = row[k]; return acc; }, {})\<close>
\<close>

definition header_map :: "raw_row \<Rightarrow> (string \<rightharpoonup> string)" where
  "header_map row = foldl (\<lambda>acc (k, v). acc(toUpperCase (trim k) \<mapsto> v)) Map.empty row"

text \<open>\<^verbatim>\<open>(keys["EN"] || "")\<close>: a missing key and the empty string both give the empty string.\<close>

definition or_empty :: "string option \<Rightarrow> string" where
  "or_empty v = (case v of None \<Rightarrow> [] | Some s \<Rightarrow> (if s = [] then [] else s))"

definition normalizeRow :: "raw_row option \<Rightarrow> Vocab option" where
  "normalizeRow row =
     (case row of
        None \<Rightarrow> None
      | Some r \<Rightarrow>
          (let keys = header_map r;
               en = trim (or_empty (keys ''EN''));
               fr = trim (or_empty (keys ''FR''));
               eg = trim (or_empty (keys ''EG''))
           in if en = [] \<and> fr = [] then None
              else Some \<lparr>EN = en, FR = fr, EG = Some eg\<rparr>))"

text \<open>
  The normalizer as the specification words it: every header key is trimmed and put in
  upper case, then each of EN, FR and EG is looked up by its canonical key (the last
  header that normalizes to it, as in the code), a missing key gives the empty string,
  the three values are trimmed, and the record is rejected when EN and FR are both empty.
\<close>

definition normalized_headers :: "raw_row \<Rightarrow> raw_row" where
  "normalized_headers row = map (\<lambda>(k, v). (toUpperCase (trim k), v)) row"

definition header_value :: "raw_row \<Rightarrow> string \<Rightarrow> string" where
  "header_value row K =
     (case map_of (rev (normalized_headers row)) K of None \<Rightarrow> [] | Some v \<Rightarrow> v)"

definition normalizeRow_spec :: "raw_row \<Rightarrow> Vocab option" where
  "normalizeRow_spec row =
     (if trim (header_value row ''EN'') = [] \<and> trim (header_value row ''FR'') = [] then None
      else Some \<lparr>EN = trim (header_value row ''EN''),
                 FR = trim (header_value row ''FR''),
                 EG = Some (trim (header_value row ''EG''))\<rparr>)"

text \<open>A string is trimmed when it neither starts nor ends with white space.\<close>

definition trimmed :: "string \<Rightarrow> bool" where
  "trimmed s \<longleftrightarrow> (s = [] \<or> (\<not> isSpace (hd s) \<and> \<not> isSpace (last s)))"

section \<open>Random utilities\<close>

text \<open>
  \<open>Math.random()\<close> returns a number \<open>r\<close> with \<open>0 \<le> r < 1\<close>. The type \<open>u01\<close> holds
  these values, and a random source is a function from the number of the call to the value
  it returns. \<open>random_index r n\<close> is \<^verbatim>\<open>Math.floor(Math.random() * n)\<close> for the drawn
  value \<open>r\<close>, computed exactly.
\<close>

typedef u01 = "{r::rat. 0 \<le> r \<and> r < 1}"
  by (rule exI[of _ 0]) simp

setup_lifting type_definition_u01

lift_definition random_index :: "u01 \<Rightarrow> nat \<Rightarrow> nat" is "\<lambda>r n. nat \<lfloor>r * of_nat n\<rfloor>" .

lift_definition u01_zero :: u01 is 0
  by simp

type_synonym rng = "nat \<Rightarrow> u01"

text \<open>\<^verbatim>\<open>[b[i], b[j]] = [b[j], b[i]]\<close>, for indices inside the array.\<close>

definition swap :: "'a list \<Rightarrow> nat \<Rightarrow> nat \<Rightarrow> 'a list" where
  "swap b i j = b[i := b ! j, j := b ! i]"

text \<open>
  The loop of \<open>shuffle\<close> and of \<open>pickN\<close>:
  \<^verbatim>\<open>for (let i = b.length - 1; i > 0; i--) { const j = Math.floor(Math.random() * (i + 1)); swap }\<close>
  \<open>fy_loop rnd k i b\<close> runs it from the loop variable \<open>i\<close> on the array \<open>b\<close>, where
  \<open>k\<close> calls of \<open>Math.random\<close> have been made before. It makes \<open>i\<close> calls.
\<close>

fun fy_loop :: "rng \<Rightarrow> nat \<Rightarrow> nat \<Rightarrow> 'a list \<Rightarrow> 'a list" where
  "fy_loop rnd k 0 b = b"
| "fy_loop rnd k (Suc i) b =
     (let j = random_index (rnd k) (Suc i + 1)
      in fy_loop rnd (Suc k) i (swap b (Suc i) j))"

text \<open>
  \<open>shuffle\<close> copies its argument and runs the loop on the copy; the value returned is the
  content of the copy. For the empty array the loop variable starts at \<open>-1\<close> and the loop
  does not run, which is what \<open>length a - 1 = 0\<close> gives on the naturals.
\<close>

definition shuffle :: "rng \<Rightarrow> nat \<Rightarrow> 'a list \<Rightarrow> 'a list" where
  "shuffle rnd k a = (let b = a in fy_loop rnd k (length b - 1) b)"

text \<open>
  \<open>xs.slice(0, e)\<close>: a negative end counts from the end of the array, and the end is
  clamped to the array.
\<close>

definition slice0 :: "'a list \<Rightarrow> int \<Rightarrow> 'a list" where
  "slice0 xs e = (if e < 0 then take (nat (int (length xs) + e)) xs else take (nat e) xs)"

text \<open>
  \<open>pickN(arr, n, avoidIndex?)\<close>. The optional argument is \<open>None\<close> when it is not given;
  \<open>i !== undefined\<close> holds for every index. \<open>candidate_idxs\<close> is
  \<^verbatim>\<open>Array.from({ length: arr.length }, (_, i) => i).filter((i) => i !== avoidIndex)\<close>,
  and \<open>pickN_idxs\<close> is the array \<open>idxs\<close> after the loop and the slice: the indices of
  the elements returned.
\<close>

definition candidate_idxs :: "nat \<Rightarrow> int option \<Rightarrow> nat list" where
  "candidate_idxs len avoidIndex = filter (\<lambda>i. Some (int i) \<noteq> avoidIndex) [0..<len]"

definition pickN_idxs :: "rng \<Rightarrow> nat \<Rightarrow> nat \<Rightarrow> int \<Rightarrow> int option \<Rightarrow> nat list" where
  "pickN_idxs rnd k len n avoidIndex =
     (let idxs0 = candidate_idxs len avoidIndex;
          idxs = fy_loop rnd k (length idxs0 - 1) idxs0
      in slice0 idxs (min n (int (length idxs))))"

definition pickN :: "rng \<Rightarrow> nat \<Rightarrow> 'a list \<Rightarrow> int \<Rightarrow> int option \<Rightarrow> 'a list" where
  "pickN rnd k arr n avoidIndex = map (\<lambda>i. arr ! i) (pickN_idxs rnd k (length arr) n avoidIndex)"

text \<open>The number of calls of \<open>Math.random\<close> that \<open>pickN\<close> makes.\<close>

definition pickN_calls :: "nat \<Rightarrow> int option \<Rightarrow> nat" where
  "pickN_calls len avoidIndex = length (candidate_idxs len avoidIndex) - 1"

text \<open>
  The exclusion index is a valid index into a pool of \<open>len\<close> elements when it is given
  and lies in \<open>0..<len\<close>.
\<close>

definition valid_index :: "nat \<Rightarrow> int option \<Rightarrow> bool" where
  "valid_index len avoidIndex =
     (case avoidIndex of None \<Rightarrow> False | Some e \<Rightarrow> 0 \<le> e \<and> e < int len)"

text \<open>A random source for concrete runs: every call of \<open>Math.random\<close> returns 0.\<close>

definition rnd_zero :: rng where
  "rnd_zero = (\<lambda>_. u01_zero)"

subsection \<open>The arrays in a store\<close>

text \<open>
  To state that the argument array is left as it was and that the result is a new array,
  the arrays are placed in a store: a list of arrays, an array's address being its
  position. Allocation appends. \<open>shuffle_store\<close> and \<open>pickN_store\<close> are the two
  functions on addresses: \<open>const b = [...a]\<close> allocates the copy, the loop writes to the
  copy only, and the address of the copy is returned; in \<open>pickN\<close> the index array is
  local, and \<open>slice\<close> and \<open>map\<close> allocate the result.
\<close>

type_synonym 'a store = "'a list list"

definition alloc :: "'a store \<Rightarrow> 'a list \<Rightarrow> 'a store \<times> nat" where
  "alloc h xs = (h @ [xs], length h)"

fun fy_loop_store :: "rng \<Rightarrow> nat \<Rightarrow> nat \<Rightarrow> nat \<Rightarrow> 'a store \<Rightarrow> 'a store" where
  "fy_loop_store rnd k 0 b h = h"
| "fy_loop_store rnd k (Suc i) b h =
     (let j = random_index (rnd k) (Suc i + 1)
      in fy_loop_store rnd (Suc k) i b (h[b := swap (h ! b) (Suc i) j]))"

definition shuffle_store :: "rng \<Rightarrow> nat \<Rightarrow> 'a store \<Rightarrow> nat \<Rightarrow> 'a store \<times> nat" where
  "shuffle_store rnd k h a =
     (let (h1, b) = alloc h (h ! a)
      in (fy_loop_store rnd k (length (h1 ! b) - 1) b h1, b))"

definition pickN_store :: "rng \<Rightarrow> nat \<Rightarrow> 'a store \<Rightarrow> nat \<Rightarrow> int \<Rightarrow> int option \<Rightarrow> 'a store \<times> nat" where
  "pickN_store rnd k h arr n avoidIndex =
     alloc h (map (\<lambda>i. (h ! arr) ! i) (pickN_idxs rnd k (length (h ! arr)) n avoidIndex))"

section \<open>Session state\<close>

text \<open>
  The state of the component \<open>LudyEnglishApp\<close>: one field for each \<open>useState\<close> cell
  that the trainer reads or writes, and the memoised working list \<open>list\<close>. The repository
  holds the component twice: the full one (with the visual feedback of an answer, the
  answered-lock of the multiple choice mode and the delayed advance) and an earlier one
  under \<open>ludyenglish/\<close>, which has no such cells and advances at once. Both are embedded
  over the same record; the functions of the earlier component carry the suffix
  \<open>_ludy\<close> and leave the cells it does not have untouched. Toasts, confetti, speech
  and the timer are presentation and are left out.

  Two fields are not \<open>useState\<close> cells but values held by closures of the full
  component that outlive a render. \<open>keyCurrent\<close> is the \<open>current\<close> of the render whose
  \<open>keydown\<close> handler is registered: the effect that registers the handler runs again
  only when one of \<open>[mode, showBack, index, list.length, rows]\<close> changes, so the
  \<open>nextCard\<close> it calls can hold an entry that is no longer the current one.
  \<open>pendingLoad\<close> is the \<open>bestStreak\<close> held by the load of \<open>useUserData\<close> that is
  in flight, \<open>None\<close> when there is none. The state updates of one handler are applied
  together, in one render.
\<close>

record Score =
  good :: int
  total' :: int

record State =
  rows :: "Vocab list"
  trainingRows :: "Vocab list"
  wrongRows :: "Vocab list"
  list' :: "Vocab list"
  mode :: Mode
  direction :: Direction
  index :: int
  showBack :: bool
  answer :: string
  score :: Score
  currentStreak :: int
  bestStreak :: int
  shuffleOn :: bool
  lastAnswerCorrect :: "bool option"
  selectedQcmOption :: "string option"
  qcmAnswered :: bool
  keyCurrent :: "Vocab option"
  pendingLoad :: "int option"

text \<open>
  The state at mount. \<open>stored\<close> is \<^verbatim>\<open>Number(localStorage.getItem("ludy:bestStreak")) || 0\<close>;
  mode, direction and the shuffle flag are read from the stored preferences.
\<close>

definition initState :: "Mode \<Rightarrow> Direction \<Rightarrow> bool \<Rightarrow> int \<Rightarrow> State" where
  "initState m d sh stored =
     \<lparr>rows = [], trainingRows = [], wrongRows = [], list' = [], mode = m, direction = d,
      index = 0, showBack = False, answer = [], score = \<lparr>good = 0, total' = 0\<rparr>,
      currentStreak = 0, bestStreak = stored, shuffleOn = sh, lastAnswerCorrect = None,
      selectedQcmOption = None, qcmAnswered = False, keyCurrent = None, pendingLoad = None\<rparr>"

text \<open>\<open>xs[i]\<close> for an integer \<open>i\<close>: \<open>undefined\<close> outside the array.\<close>

definition nth_opt :: "'a list \<Rightarrow> int \<Rightarrow> 'a option" where
  "nth_opt xs i = (if 0 \<le> i \<and> i < int (length xs) then Some (xs ! nat i) else None)"

text \<open>\<^verbatim>\<open>const current = list[index] as Vocab | undefined\<close>\<close>

definition current :: "State \<Rightarrow> Vocab option" where
  "current s = nth_opt (list' s) (index s)"

text \<open>\<^verbatim>\<open>direction === "FR->EN" ? v.EN : v.FR\<close>, the field the user has to give.\<close>

definition target :: "Direction \<Rightarrow> Vocab \<Rightarrow> string" where
  "target d v = (if d = FR_EN then EN v else FR v)"

text \<open>\<^verbatim>\<open>const key = (v: Vocab) => `${v.EN}__${v.FR}`\<close>\<close>

definition key :: "Vocab \<Rightarrow> string" where
  "key v = EN v @ ''__'' @ FR v"

text \<open>
  \<^verbatim>\<open>useMemo(() => (shuffleOn ? shuffle(trainingRows) : trainingRows), [trainingRows, shuffleOn])\<close>.
  \<open>relist\<close> recomputes the memo; the operations below call it wherever they set
  \<open>trainingRows\<close> or \<open>shuffleOn\<close>. (React skips the recomputation when the array set is
  the one already held; the order it keeps then is one of the orders \<open>shuffle\<close> can
  return, so the runs of the embedding over all random sources include it.)
\<close>

definition relist :: "rng \<Rightarrow> State \<Rightarrow> State" where
  "relist rnd s = s\<lparr>list' := (if shuffleOn s then shuffle rnd 0 (trainingRows s) else trainingRows s)\<rparr>"

definition hardResetProgress :: "State \<Rightarrow> State" where
  "hardResetProgress s =
     s\<lparr>index := 0, showBack := False, answer := [], score := \<lparr>good = 0, total' = 0\<rparr>,
       currentStreak := 0, qcmAnswered := False, selectedQcmOption := None\<rparr>"

text \<open>
  The mistake list after an incorrect answer on \<open>cur\<close>:
  \<^verbatim>\<open>setWrongRows((wr) => (wr.some((v) => key(v) === key(current)) ? wr : [...wr, current]))\<close>
\<close>

definition addWrong :: "Vocab \<Rightarrow> Vocab list \<Rightarrow> Vocab list" where
  "addWrong cur wr = (if list_ex (\<lambda>v. key v = key cur) wr then wr else wr @ [cur])"

text \<open>
  \<open>nextCard(correct?: boolean)\<close>. The argument is \<open>None\<close> when the call gives none
  (the space bar in flashcard mode); only \<open>true\<close> is truthy. These are the effects at the
  call. The full component ends by scheduling the callback \<open>advance\<close> with
  \<open>setTimeout\<close>; the callback keeps the mode and the length of the list of the render that
  scheduled it. \<open>nextCard\<close> reads \<open>current\<close> from the render that created it:
  \<open>nextCard_at cur\<close> is the function of a render whose current entry is \<open>cur\<close>, and
  \<open>nextCard\<close> is the one of the latest render, which the buttons and the input call.
\<close>

definition nextCard_at :: "Vocab option \<Rightarrow> bool option \<Rightarrow> State \<Rightarrow> State" where
  "nextCard_at current' correct s =
     (let c = (correct = Some True);
          s1 = s\<lparr>lastAnswerCorrect := correct\<rparr>;
          s2 = s1\<lparr>score := \<lparr>good = good (score s1) + (if c then 1 else 0),
                            total' = total' (score s1) + 1\<rparr>\<rparr>;
          ns = (if c then currentStreak s2 + 1 else 0);
          s3 = s2\<lparr>currentStreak := ns, bestStreak := max (bestStreak s2) ns\<rparr>;
          s4 = (if \<not> c then
                  (case current' of
                     None \<Rightarrow> s3
                   | Some cur \<Rightarrow> s3\<lparr>wrongRows := addWrong cur (wrongRows s3)\<rparr>)
                else s3)
      in if mode s \<noteq> qcm then s4\<lparr>qcmAnswered := False, selectedQcmOption := None\<rparr> else s4)"

definition nextCard :: "bool option \<Rightarrow> State \<Rightarrow> State" where
  "nextCard correct s = nextCard_at (current s) correct s"

definition advance :: "Mode \<Rightarrow> int \<Rightarrow> State \<Rightarrow> State" where
  "advance m len s =
     (let s1 = s\<lparr>lastAnswerCorrect := None, showBack := False, answer := []\<rparr>;
          s2 = (if m = qcm then s1\<lparr>qcmAnswered := False, selectedQcmOption := None\<rparr> else s1)
      in s2\<lparr>index := clamp (index s2 + 1) 0 (max (len - 1) 0)\<rparr>)"

definition nextCard_ludy :: "bool option \<Rightarrow> State \<Rightarrow> State" where
  "nextCard_ludy correct s =
     (let c = (correct = Some True);
          s2 = s\<lparr>score := \<lparr>good = good (score s) + (if c then 1 else 0),
                          total' = total' (score s) + 1\<rparr>\<rparr>;
          ns = (if c then currentStreak s2 + 1 else 0);
          s3 = s2\<lparr>currentStreak := ns, bestStreak := max (bestStreak s2) ns\<rparr>;
          s4 = (if \<not> c then
                  (case current s of
                     None \<Rightarrow> s3
                   | Some cur \<Rightarrow> s3\<lparr>wrongRows := addWrong cur (wrongRows s3)\<rparr>)
                else s3)
      in s4\<lparr>showBack := False, answer := [],
            index := clamp (index s4 + 1) 0 (max (int (length (list' s)) - 1) 0)\<rparr>)"

definition jumpTo :: "int \<Rightarrow> State \<Rightarrow> State" where
  "jumpTo i s =
     s\<lparr>index := clamp i 0 (max (int (length (list' s)) - 1) 0), showBack := False, answer := [],
       qcmAnswered := False, selectedQcmOption := None\<rparr>"

text \<open>
  \<open>handleAnswerSubmit\<close>, the writing mode: the typed text is the cell \<open>answer\<close>.
\<close>

definition handleAnswerSubmit :: "State \<Rightarrow> State" where
  "handleAnswerSubmit s =
     (case current s of
        None \<Rightarrow> s
      | Some cur \<Rightarrow>
          (let target = toLowerCase (trim (target (direction s) cur));
               given = toLowerCase (trim (answer s));
               isCorrect = (given = target)
           in nextCard (Some isCorrect) s))"

definition handleAnswerSubmit_ludy :: "State \<Rightarrow> State" where
  "handleAnswerSubmit_ludy s =
     (case current s of
        None \<Rightarrow> s
      | Some cur \<Rightarrow>
          (let target = toLowerCase (trim (target (direction s) cur));
               given = toLowerCase (trim (answer s))
           in nextCard_ludy (Some (given = target)) s))"

text \<open>
  The input and the button that call \<open>handleAnswerSubmit\<close> exist only in the writing
  mode.
\<close>

definition writingSubmit :: "State \<Rightarrow> State" where
  "writingSubmit s = (if mode s \<noteq> writing then s else handleAnswerSubmit s)"

text \<open>
  The click on the option \<open>opt\<close> of the multiple choice mode. The buttons exist only in
  that mode and with a current entry; without them there is no click and the state stays.
  \<^verbatim>\<open>if (qcmAnswered) return; setSelectedQcmOption(opt); setQcmAnswered(true); nextCard(isCorrect);\<close>
\<close>

definition qcmClick :: "string \<Rightarrow> State \<Rightarrow> State" where
  "qcmClick opt s =
     (case current s of
        None \<Rightarrow> s
      | Some cur \<Rightarrow>
          if mode s \<noteq> qcm then s
          else if qcmAnswered s then s
          else nextCard (Some (opt = target (direction s) cur))
                 (s\<lparr>selectedQcmOption := Some opt, qcmAnswered := True\<rparr>))"

definition qcmClick_ludy :: "string \<Rightarrow> State \<Rightarrow> State" where
  "qcmClick_ludy opt s =
     (case current s of
        None \<Rightarrow> s
      | Some cur \<Rightarrow>
          if mode s \<noteq> qcm then s
          else nextCard_ludy (Some (opt = target (direction s) cur)) s)"

text \<open>
  The two answer buttons of the flashcard mode, \<open>nextCard(true)\<close> and
  \<open>nextCard(false)\<close>; they exist only in that mode and with a current entry.
\<close>

definition flashcardAnswer :: "bool \<Rightarrow> State \<Rightarrow> State" where
  "flashcardAnswer knew s =
     (case current s of
        None \<Rightarrow> s
      | Some cur \<Rightarrow> if mode s \<noteq> flashcards then s else nextCard (Some knew) s)"

text \<open>
  The space bar, in the \<open>keydown\<close> handler:
  \<^verbatim>\<open>if (mode === "flashcards") { if (showBack) nextCard(); else setShowBack(true); }\<close>
  \<open>mode\<close> and \<open>showBack\<close> are among the dependencies of the effect that registers the
  handler, so the handler holds their latest values; its \<open>nextCard\<close> is the one of the
  render that registered it, with that render's current entry.
\<close>

definition spaceKey :: "State \<Rightarrow> State" where
  "spaceKey s =
     (if mode s = flashcards
      then (if showBack s then nextCard_at (keyCurrent s) None s else s\<lparr>showBack := True\<rparr>)
      else s)"

text \<open>
  The buttons and arrow keys of the navigation: \<open>jumpTo(index - 1)\<close> when
  \<open>index > 0\<close>, \<open>jumpTo(index + 1)\<close> when \<open>index < list.length - 1\<close>. (In the
  \<open>keydown\<close> handler \<open>index\<close> and \<open>list.length\<close> are dependencies, and \<open>jumpTo\<close>
  reads nothing else of the list.)
\<close>

definition previous :: "State \<Rightarrow> State" where
  "previous s = (if index s > 0 then jumpTo (index s - 1) s else s)"

definition forward :: "State \<Rightarrow> State" where
  "forward s = (if index s < int (length (list' s)) - 1 then jumpTo (index s + 1) s else s)"

text \<open>
  \<open>setRows(parsed)\<close> with the effect that follows it:
  \<^verbatim>\<open>setTrainingRows(rows); setWrongRows([]); hardResetProgress(); setQcmAnswered(false); setSelectedQcmOption(null);\<close>
\<close>

definition setRows :: "rng \<Rightarrow> Vocab list \<Rightarrow> State \<Rightarrow> State" where
  "setRows rnd parsed s =
     relist rnd (hardResetProgress (s\<lparr>rows := parsed, trainingRows := parsed, wrongRows := []\<rparr>))"

text \<open>
  The import of decoded records:
  \<^verbatim>\<open>for (const r of res.data) { const row = normalizeRow(r); if (row) parsed.push(row); }\<close>
  \<^verbatim>\<open>if (parsed.length > 0) { setRows(parsed); ... }\<close>
\<close>

definition collectRows :: "raw_row list \<Rightarrow> Vocab list" where
  "collectRows data = List.map_filter (\<lambda>r. normalizeRow (Some r)) data"

definition handleParse :: "rng \<Rightarrow> raw_row list \<Rightarrow> State \<Rightarrow> State" where
  "handleParse rnd data s =
     (let parsed = collectRows data in if length parsed > 0 then setRows rnd parsed s else s)"

text \<open>\<open>handleLoadCsv\<close>, for the entries a stored file holds.\<close>

definition handleLoadCsv :: "rng \<Rightarrow> Vocab list \<Rightarrow> State \<Rightarrow> State" where
  "handleLoadCsv rnd loaded s = (if length loaded > 0 then setRows rnd loaded s else s)"

text \<open>
  The two scope buttons, the restart button and the key R:
  \<^verbatim>\<open>setTrainingRows(rows); hardResetProgress();\<close> and
  \<^verbatim>\<open>if (wrongRows.length > 0) { setTrainingRows(wrongRows); hardResetProgress(); }\<close>
\<close>

definition fullSession :: "rng \<Rightarrow> State \<Rightarrow> State" where
  "fullSession rnd s = relist rnd (hardResetProgress (s\<lparr>trainingRows := rows s\<rparr>))"

definition wrongOnly :: "rng \<Rightarrow> State \<Rightarrow> State" where
  "wrongOnly rnd s =
     (if length (wrongRows s) > 0 then relist rnd (hardResetProgress (s\<lparr>trainingRows := wrongRows s\<rparr>))
      else s)"

text \<open>
  The settings: \<^verbatim>\<open>setMode(v); resetSession();\<close>, \<^verbatim>\<open>setDirection(v); resetSession();\<close>
  and \<^verbatim>\<open>setShuffleOn((s) => !s)\<close>.
\<close>

definition changeMode :: "Mode \<Rightarrow> State \<Rightarrow> State" where
  "changeMode v s = hardResetProgress (s\<lparr>mode := v\<rparr>)"

definition changeDirection :: "Direction \<Rightarrow> State \<Rightarrow> State" where
  "changeDirection v s = hardResetProgress (s\<lparr>direction := v\<rparr>)"

definition toggleShuffle :: "rng \<Rightarrow> State \<Rightarrow> State" where
  "toggleShuffle rnd s = relist rnd (s\<lparr>shuffleOn := \<not> shuffleOn s\<rparr>)"

text \<open>
  The hook \<open>useUserData(user, bestStreak, setBestStreak)\<close>. When \<open>user\<close> changes, its
  first effect cancels the load in flight and, for a signed-in user, starts a load that
  holds the \<open>bestStreak\<close> of that render. When the document arrives
  (\<open>None\<close>: no document, or no number in it, or the read failed):
  \<^verbatim>\<open>if (cancelled) return; ... if (typeof data.bestStreak === "number" && data.bestStreak > bestStreak) setBestStreak(data.bestStreak);\<close>
\<close>

definition userChanged :: "bool \<Rightarrow> State \<Rightarrow> State" where
  "userChanged signedIn s = s\<lparr>pendingLoad := (if signedIn then Some (bestStreak s) else None)\<rparr>"

definition loadResolved :: "int option \<Rightarrow> State \<Rightarrow> State" where
  "loadResolved doc s =
     (case pendingLoad s of
        None \<Rightarrow> s
      | Some captured \<Rightarrow>
          (let s1 = s\<lparr>pendingLoad := None\<rparr>
           in case doc of
                None \<Rightarrow> s1
              | Some remote \<Rightarrow> if remote > captured then s1\<lparr>bestStreak := remote\<rparr> else s1))"

text \<open>
  The events of a session of the full component, and what the handler of each one does to
  the cells. Every event comes with the random source of the render that follows it.
  \<open>Timeout m len\<close> is a callback of \<open>nextCard\<close> coming due, \<open>UserChanged\<close> a change
  of the signed-in user and \<open>RemoteDoc\<close> the arrival of the user's document.
\<close>

datatype Event =
    Parsed "raw_row list"
  | Loaded "Vocab list"
  | ChangeMode Mode
  | ChangeDirection Direction
  | ToggleShuffle
  | FullSession
  | WrongOnly
  | ToggleBack
  | SetAnswer string
  | FlashcardAnswer bool
  | SpaceKey
  | Previous
  | Forward
  | QcmClick string
  | AnswerSubmit
  | Timeout Mode int
  | UserChanged bool
  | RemoteDoc "int option"

fun handler :: "rng \<Rightarrow> Event \<Rightarrow> State \<Rightarrow> State" where
  "handler rnd (Parsed data) s = handleParse rnd data s"
| "handler rnd (Loaded loaded) s = handleLoadCsv rnd loaded s"
| "handler rnd (ChangeMode v) s = changeMode v s"
| "handler rnd (ChangeDirection v) s = changeDirection v s"
| "handler rnd ToggleShuffle s = toggleShuffle rnd s"
| "handler rnd FullSession s = fullSession rnd s"
| "handler rnd WrongOnly s = wrongOnly rnd s"
| "handler rnd ToggleBack s = s\<lparr>showBack := \<not> showBack s\<rparr>"
| "handler rnd (SetAnswer text) s = s\<lparr>answer := text\<rparr>"
| "handler rnd (FlashcardAnswer knew) s = flashcardAnswer knew s"
| "handler rnd SpaceKey s = spaceKey s"
| "handler rnd Previous s = previous s"
| "handler rnd Forward s = forward s"
| "handler rnd (QcmClick opt) s = qcmClick opt s"
| "handler rnd AnswerSubmit s = writingSubmit s"
| "handler rnd (Timeout m len) s = advance m len s"
| "handler rnd (UserChanged signedIn) s = userChanged signedIn s"
| "handler rnd (RemoteDoc doc) s = loadResolved doc s"

text \<open>
  The registration of the \<open>keydown\<close> handler after an event:
  \<^verbatim>\<open>useEffect(() => { ...; window.addEventListener("keydown", handleKeyPress); ... }, [mode, showBack, index, list.length, rows])\<close>
  When \<open>mode\<close>, \<open>showBack\<close>, \<open>index\<close> or \<open>list.length\<close> differ from the render
  before, the handler of the new render is registered. \<open>rows\<close> is a new array exactly
  when \<open>setRows\<close> ran; the render that follows \<open>setRows\<close> still has the list and the
  index of before (the effect that resets the session runs after it), so it registers a
  handler with the entry that was current before, and the render after the reset
  registers again only if one of the other four differs.
\<close>

fun sets_rows :: "Event \<Rightarrow> bool" where
  "sets_rows (Parsed data) = (length (collectRows data) > 0)"
| "sets_rows (Loaded loaded) = (length loaded > 0)"
| "sets_rows e = False"

definition reregister :: "bool \<Rightarrow> State \<Rightarrow> State \<Rightarrow> State" where
  "reregister rowsSet old new =
     (if mode new \<noteq> mode old \<or> showBack new \<noteq> showBack old \<or> index new \<noteq> index old
         \<or> length (list' new) \<noteq> length (list' old)
      then new\<lparr>keyCurrent := current new\<rparr>
      else if rowsSet then new\<lparr>keyCurrent := current old\<rparr>
      else new)"

definition step :: "rng \<Rightarrow> Event \<Rightarrow> State \<Rightarrow> State" where
  "step rnd e s = reregister (sets_rows e) s (handler rnd e s)"

text \<open>The events of the remote document, which are not operations of the trainer.\<close>

fun is_remote :: "Event \<Rightarrow> bool" where
  "is_remote (UserChanged signedIn) = True"
| "is_remote (RemoteDoc doc) = True"
| "is_remote e = False"

text \<open>
  The events that clear the answered-lock: the delayed advance, the navigation, and the
  resets (a change of mode, direction or scope, a restart, an import).
\<close>

fun releases :: "Event \<Rightarrow> bool" where
  "releases (Timeout m len) = True"
| "releases Previous = True"
| "releases Forward = True"
| "releases (ChangeMode v) = True"
| "releases (ChangeDirection v) = True"
| "releases FullSession = True"
| "releases WrongOnly = True"
| "releases (Parsed data) = True"
| "releases (Loaded loaded) = True"
| "releases e = False"

fun run :: "(rng \<times> Event) list \<Rightarrow> State \<Rightarrow> State" where
  "run [] s = s"
| "run ((rnd, e) # es) s = run es (step rnd e s)"

section \<open>Multiple choice options\<close>

text \<open>\<open>xs.indexOf(x)\<close>: the first index that holds \<open>x\<close>, and \<open>-1\<close> when none does.\<close>

fun indexOf_from :: "nat \<Rightarrow> 'a list \<Rightarrow> 'a \<Rightarrow> int" where
  "indexOf_from k [] x = - 1"
| "indexOf_from k (y # ys) x = (if y = x then int k else indexOf_from (Suc k) ys x)"

definition indexOf :: "'a list \<Rightarrow> 'a \<Rightarrow> int" where
  "indexOf xs x = indexOf_from 0 xs x"

text \<open>
  The memo \<open>qcmOptions\<close>, computed at a render where \<open>k\<close> calls of \<open>Math.random\<close> have
  been made: \<open>pickN\<close> draws first, \<open>shuffle\<close> after it.
\<close>

definition qcmOptions :: "rng \<Rightarrow> nat \<Rightarrow> State \<Rightarrow> string list" where
  "qcmOptions rnd k s =
     (case current s of
        None \<Rightarrow> []
      | Some cur \<Rightarrow>
          if length (list' s) = 0 then []
          else
            (let correct = target (direction s) cur;
                 pool = map (\<lambda>r. target (direction s) r) (list' s);
                 avoid = Some (indexOf pool correct);
                 distractors = pickN rnd k pool 3 avoid
             in shuffle rnd (k + pickN_calls (length pool) avoid) (correct # distractors)))"

section \<open>Derived percentages\<close>

text \<open>
  The two percentages of the display. The quotients are rational numbers here, and a
  division is a value of its own: \<open>None\<close> when the divisor is zero, where JavaScript
  gives no finite number. \<open>Math_round\<close> rounds to the nearest integer, a half upwards.
  \<^verbatim>\<open>const progress = list.length ? Math.round(((index + 1) / list.length) * 100) : 0;\<close>
  \<^verbatim>\<open>const accuracy = score.total ? Math.round((score.good / Math.max(score.total, 1)) * 100) : 0;\<close>
\<close>

definition js_div :: "rat \<Rightarrow> rat \<Rightarrow> rat option" where
  "js_div a b = (if b = 0 then None else Some (a / b))"

definition Math_round :: "rat \<Rightarrow> int" where
  "Math_round x = \<lfloor>x + 1 / 2\<rfloor>"

definition progress :: "State \<Rightarrow> int option" where
  "progress s =
     (if length (list' s) \<noteq> 0
      then map_option (\<lambda>q. Math_round (q * 100))
             (js_div (of_int (index s + 1)) (of_nat (length (list' s))))
      else Some 0)"

definition accuracy :: "State \<Rightarrow> int option" where
  "accuracy s =
     (if total' (score s) \<noteq> 0
      then map_option (\<lambda>q. Math_round (q * 100))
             (js_div (of_int (good (score s))) (of_int (max (total' (score s)) 1)))
      else Some 0)"

section \<open>Invariant and sample data\<close>

text \<open>
  The invariant of the scoring cells: the correct answers are among the answers counted,
  the running streak is at most the best one, and the best one is not negative.
\<close>

definition scoring_inv :: "State \<Rightarrow> bool" where
  "scoring_inv s \<longleftrightarrow>
     good (score s) \<le> total' (score s) \<and> currentStreak s \<le> bestStreak s \<and> 0 \<le> bestStreak s"

text \<open>
  Entries and states for concrete runs: the two entries of the examples of the
  specification, two entries whose keys \<^verbatim>\<open>`${v.EN}__${v.FR}`\<close> are the same string, and
  the states after loading the two example entries, without shuffling, in the writing and in
  the multiple choice mode, in each direction.
\<close>

definition cat :: Vocab where
  "cat = \<lparr>EN = ''cat'', FR = ''chat'', EG = None\<rparr>"

definition dog :: Vocab where
  "dog = \<lparr>EN = ''dog'', FR = ''chien'', EG = None\<rparr>"

definition entry_ab_c :: Vocab where
  "entry_ab_c = \<lparr>EN = ''a__b'', FR = ''c'', EG = None\<rparr>"

definition entry_a_bc :: Vocab where
  "entry_a_bc = \<lparr>EN = ''a'', FR = ''b__c'', EG = None\<rparr>"

definition writing_start :: State where
  "writing_start = step rnd_zero (Loaded [cat, dog]) (initState writing FR_EN False 0)"

definition qcm_start :: State where
  "qcm_start = step rnd_zero (Loaded [cat, dog]) (initState qcm FR_EN False 0)"

definition writing_start_fr :: State where
  "writing_start_fr = step rnd_zero (Loaded [cat, dog]) (initState writing EN_FR False 0)"

definition qcm_start_fr :: State where
  "qcm_start_fr = step rnd_zero (Loaded [cat, dog]) (initState qcm EN_FR False 0)"

section \<open>Properties of the random utilities\<close>

lemma random_index_less: "0 < n \<Longrightarrow> random_index r n < n"
  by transfer (simp add: floor_less_iff nat_less_iff)

lemma random_index_zero: "random_index u01_zero n = 0"
  by transfer simp

lemma length_swap: "length (swap b i j) = length b"
  by (simp add: swap_def)

lemma mset_swap_elems: "i < length b \<Longrightarrow> j < length b \<Longrightarrow> mset (swap b i j) = mset b"
  unfolding swap_def by (rule mset_swap)

lemma length_fy_loop: "length (fy_loop rnd k i b) = length b"
  by (induction i arbitrary: k b) (simp_all add: Let_def length_swap)

text \<open>
  The loop keeps the elements of the array, when the loop variable starts inside the array:
  every index drawn is at most the loop variable.
\<close>

lemma mset_fy_loop: "i \<le> length b - 1 \<Longrightarrow> mset (fy_loop rnd k i b) = mset b"
proof (induction i arbitrary: k b)
  case 0
  then show ?case by simp
next
  case (Suc i)
  let ?j = "random_index (rnd k) (Suc i + 1)"
  have i: "Suc i < length b" using Suc.prems by simp
  have "?j < Suc i + 1" by (rule random_index_less) simp
  then have j: "?j < length b" using i by simp
  have "mset (fy_loop rnd (Suc k) i (swap b (Suc i) ?j)) = mset (swap b (Suc i) ?j)"
    using i by (intro Suc.IH) (simp add: length_swap)
  then show ?case using i j by (simp add: Let_def mset_swap_elems)
qed

lemma mset_shuffle: "mset (shuffle rnd k a) = mset a"
  by (simp add: shuffle_def mset_fy_loop)

lemma length_shuffle: "length (shuffle rnd k a) = length a"
  by (simp add: shuffle_def length_fy_loop)

lemma set_shuffle: "set (shuffle rnd k a) = set a"
  using mset_shuffle[of rnd k a] by (rule mset_eq_setD)

text \<open>The loop on the store writes to the array at \<open>b\<close> and to nothing else.\<close>

lemma fy_loop_store_eq:
  "b < length h \<Longrightarrow> fy_loop_store rnd k i b h = h[b := fy_loop rnd k i (h ! b)]"
  by (induction i arbitrary: k h) (simp_all add: Let_def)

lemma shuffle_store_eq:
  "shuffle_store rnd k h a = (h @ [shuffle rnd k (h ! a)], length h)"
  by (simp add: shuffle_store_def alloc_def fy_loop_store_eq shuffle_def Let_def)

lemma filter_neq_upt:
  assumes m: "m < len"
  shows "length (filter (\<lambda>i. i \<noteq> m) [0..<len]) = len - 1"
proof -
  have s: "set (filter (\<lambda>i. i \<noteq> m) [0..<len]) = {0..<len} - {m}" by auto
  have "distinct (filter (\<lambda>i. i \<noteq> m) [0..<len])" by simp
  then have "length (filter (\<lambda>i. i \<noteq> m) [0..<len]) = card ({0..<len} - {m})"
    using distinct_card s by metis
  also have "\<dots> = len - 1" using m by simp
  finally show ?thesis .
qed

lemma length_candidate_idxs:
  "int (length (candidate_idxs len av)) = int len - (if valid_index len av then 1 else 0)"
proof (cases av)
  case None
  then show ?thesis by (simp add: candidate_idxs_def valid_index_def)
next
  case (Some e)
  show ?thesis
  proof (cases "0 \<le> e \<and> e < int len")
    case True
    define m where "m = nat e"
    have m: "e = int m" "m < len" using True by (simp_all add: m_def nat_less_iff)
    have "filter (\<lambda>i. Some (int i) \<noteq> av) [0..<len] = filter (\<lambda>i. i \<noteq> m) [0..<len]"
      using Some m by (intro filter_cong) auto
    then have "length (candidate_idxs len av) = len - 1"
      using filter_neq_upt[OF m(2)] by (simp add: candidate_idxs_def)
    moreover have "valid_index len av" using True Some by (simp add: valid_index_def)
    ultimately show ?thesis using m(2) by simp
  next
    case False
    have "filter (\<lambda>i. Some (int i) \<noteq> av) [0..<len] = [0..<len]"
      using Some False by (intro filter_True) auto
    then show ?thesis using False Some by (simp add: candidate_idxs_def valid_index_def)
  qed
qed

lemma pickN_idxs_eq:
  "0 \<le> n \<Longrightarrow> pickN_idxs rnd k len n av =
     take (nat n) (fy_loop rnd k (length (candidate_idxs len av) - 1) (candidate_idxs len av))"
  by (simp add: pickN_idxs_def Let_def slice0_def length_fy_loop min_def)

lemma set_pickN_idxs:
  assumes "0 \<le> n"
  shows "set (pickN_idxs rnd k len n av) \<subseteq> {i. i < len \<and> Some (int i) \<noteq> av}"
proof -
  have "set (fy_loop rnd k (length (candidate_idxs len av) - 1) (candidate_idxs len av))
          = set (candidate_idxs len av)"
    by (rule mset_eq_setD) (simp add: mset_fy_loop)
  moreover have "set (candidate_idxs len av) = {i. i < len \<and> Some (int i) \<noteq> av}"
    by (auto simp: candidate_idxs_def)
  ultimately show ?thesis
    using set_take_subset[of "nat n"
        "fy_loop rnd k (length (candidate_idxs len av) - 1) (candidate_idxs len av)"]
    by (simp add: pickN_idxs_eq[OF assms])
qed

lemma distinct_pickN_idxs:
  assumes "0 \<le> n"
  shows "distinct (pickN_idxs rnd k len n av)"
proof -
  have "distinct (candidate_idxs len av)" by (simp add: candidate_idxs_def)
  moreover have "mset (fy_loop rnd k (length (candidate_idxs len av) - 1) (candidate_idxs len av))
                   = mset (candidate_idxs len av)"
    by (simp add: mset_fy_loop)
  ultimately have "distinct (fy_loop rnd k (length (candidate_idxs len av) - 1) (candidate_idxs len av))"
    using mset_eq_imp_distinct_iff by blast
  then show ?thesis by (simp add: pickN_idxs_eq[OF assms])
qed

lemma length_pickN_idxs:
  assumes "0 \<le> n"
  shows "int (length (pickN_idxs rnd k len n av))
           = min n (int len - (if valid_index len av then 1 else 0))"
proof -
  have "int (length (pickN_idxs rnd k len n av)) = min n (int (length (candidate_idxs len av)))"
    using assms unfolding pickN_idxs_eq[OF assms] length_take length_fy_loop by linarith
  then show ?thesis by (simp only: length_candidate_idxs)
qed

section \<open>Claims on the random utilities\<close>

lemma shuffle_zero_abc: "shuffle rnd_zero 0 [''a'', ''b'', ''c''] = [''b'', ''c'', ''a'']"
  by (simp add: shuffle_def rnd_zero_def random_index_zero swap_def Let_def eval_nat_numeral)

lemma pickN_zero_abcd:
  "pickN rnd_zero 0 [''a'', ''b'', ''c'', ''d''] 3 (Some 1) = [''c'', ''d'', ''a'']"
  by (simp add: pickN_def pickN_idxs_def candidate_idxs_def rnd_zero_def random_index_zero
      slice0_def swap_def Let_def eval_nat_numeral)

text \<open>
  Claim C8. For every input list and every random source, \<open>shuffle\<close> returns a
  permutation of its input: the same multiset of elements and the same length; the empty
  list and a singleton come back as they are. On the store, the result is a new array (its
  address is the first free one), every array that was in the store, the argument among
  them, is as it was, and the new array holds the shuffled content.
\<close>

theorem shuffle_permutation:
  "mset (shuffle rnd k a) = mset a \<and> length (shuffle rnd k a) = length a \<and>
   shuffle rnd k [] = [] \<and> shuffle rnd k [x] = [x] \<and>
   (src < length h \<longrightarrow>
      (case shuffle_store rnd k h src of (h', b) \<Rightarrow>
         b = length h \<and> length h' = Suc (length h) \<and> take (length h) h' = h \<and>
         h' ! src = h ! src \<and> h' ! b = shuffle rnd k (h ! src)))"
proof -
  have "shuffle rnd k [] = []" "shuffle rnd k [x] = [x]"
    by (simp_all add: shuffle_def)
  moreover have "src < length h \<longrightarrow>
      (case shuffle_store rnd k h src of (h', b) \<Rightarrow>
         b = length h \<and> length h' = Suc (length h) \<and> take (length h) h' = h \<and>
         h' ! src = h ! src \<and> h' ! b = shuffle rnd k (h ! src))"
    by (simp add: shuffle_store_eq nth_append)
  ultimately show ?thesis by (simp add: mset_shuffle length_shuffle)
qed

theorem shuffle_permutation_witness:
  "mset (shuffle rnd_zero 0 [''a'', ''b'', ''c'']) = mset [''a'', ''b'', ''c''] \<and>
   shuffle rnd_zero 0 [''a'', ''b'', ''c''] = [''b'', ''c'', ''a''] \<and>
   (0::nat) < length [[''a'', ''b'', ''c'']] \<and>
   shuffle_store rnd_zero 0 [[''a'', ''b'', ''c'']] 0
     = ([[''a'', ''b'', ''c''], [''b'', ''c'', ''a'']], 1)"
proof -
  note t = shuffle_permutation[where rnd = rnd_zero and k = 0 and a = "[''a'', ''b'', ''c'']"
      and src = 0 and h = "[[''a'', ''b'', ''c'']]"]
  have a: "mset (shuffle rnd_zero 0 [''a'', ''b'', ''c'']) = mset [''a'', ''b'', ''c'']"
    using t by (rule conjunct1)
  have b: "shuffle rnd_zero 0 [''a'', ''b'', ''c''] = [''b'', ''c'', ''a'']"
    by (rule shuffle_zero_abc)
  have c: "(0::nat) < length [[''a'', ''b'', ''c'']]"
    by simp
  have d: "shuffle_store rnd_zero 0 [[''a'', ''b'', ''c'']] 0
     = ([[''a'', ''b'', ''c''], [''b'', ''c'', ''a'']], 1)"
    by (simp add: shuffle_store_eq shuffle_zero_abc)
  from a b c d show ?thesis by blast
qed

text \<open>
  Claim C6. \<open>n\<close> is the number of elements asked for, a count: \<open>n \<ge> 0\<close> (every call
  in the repository passes 3). For every pool, every such \<open>n\<close>, every optional exclusion
  index and every random source, \<open>pickN\<close> returns the elements of the pool at the indices
  \<open>pickN_idxs\<close>; these indices are pairwise different (a draw without replacement by
  index), lie in the pool and differ from the exclusion index; the length of the result is
  \<open>min(n, len(pool) - 1)\<close> when the exclusion index is a valid index into the pool and
  \<open>min(n, len(pool))\<close> otherwise; the element at the excluded index is in the result only
  if an equal value stands at another index; and on the store the pool, like every array
  that was there, is as it was, the result being a new array.
\<close>

theorem pickN_sample:
  "0 \<le> n \<longrightarrow>
   pickN rnd k pool n av = map (\<lambda>i. pool ! i) (pickN_idxs rnd k (length pool) n av) \<and>
   distinct (pickN_idxs rnd k (length pool) n av) \<and>
   (\<forall>i \<in> set (pickN_idxs rnd k (length pool) n av). i < length pool \<and> Some (int i) \<noteq> av) \<and>
   int (length (pickN rnd k pool n av))
     = min n (int (length pool) - (if valid_index (length pool) av then 1 else 0)) \<and>
   (\<forall>e. av = Some (int e) \<and> e < length pool \<and> pool ! e \<in> set (pickN rnd k pool n av)
        \<longrightarrow> (\<exists>i < length pool. i \<noteq> e \<and> pool ! i = pool ! e)) \<and>
   (arr < length h \<longrightarrow>
      (case pickN_store rnd k h arr n av of (h', res) \<Rightarrow>
         res = length h \<and> take (length h) h' = h \<and> h' ! arr = h ! arr \<and>
         h' ! res = pickN rnd k (h ! arr) n av))"
proof (intro impI conjI)
  assume n: "0 \<le> n"
  show "pickN rnd k pool n av = map (\<lambda>i. pool ! i) (pickN_idxs rnd k (length pool) n av)"
    by (simp add: pickN_def)
  show "distinct (pickN_idxs rnd k (length pool) n av)"
    by (rule distinct_pickN_idxs[OF n])
  show in_range:
    "\<forall>i \<in> set (pickN_idxs rnd k (length pool) n av). i < length pool \<and> Some (int i) \<noteq> av"
    using set_pickN_idxs[OF n, of rnd k "length pool" av] by blast
  show "int (length (pickN rnd k pool n av))
     = min n (int (length pool) - (if valid_index (length pool) av then 1 else 0))"
    using length_pickN_idxs[OF n, of rnd k "length pool" av] by (simp add: pickN_def)
  show "\<forall>e. av = Some (int e) \<and> e < length pool \<and> pool ! e \<in> set (pickN rnd k pool n av)
        \<longrightarrow> (\<exists>i < length pool. i \<noteq> e \<and> pool ! i = pool ! e)"
  proof (intro allI impI)
    fix e
    assume a: "av = Some (int e) \<and> e < length pool \<and> pool ! e \<in> set (pickN rnd k pool n av)"
    then obtain i where i: "i \<in> set (pickN_idxs rnd k (length pool) n av)" "pool ! i = pool ! e"
      by (auto simp: pickN_def)
    then have "i < length pool" "Some (int i) \<noteq> av" using in_range by auto
    then show "\<exists>i < length pool. i \<noteq> e \<and> pool ! i = pool ! e"
      using a i(2) by auto
  qed
  show "arr < length h \<Longrightarrow>
      (case pickN_store rnd k h arr n av of (h', res) \<Rightarrow>
         res = length h \<and> take (length h) h' = h \<and> h' ! arr = h ! arr \<and>
         h' ! res = pickN rnd k (h ! arr) n av)"
    by (simp add: pickN_store_def alloc_def pickN_def nth_append)
qed

theorem pickN_sample_witness:
  "(0::int) \<le> 3 \<and>
   pickN rnd_zero 0 [''a'', ''b'', ''c'', ''d''] 3 (Some 1) = [''c'', ''d'', ''a''] \<and>
   int (length (pickN rnd_zero 0 [''a'', ''b'', ''c'', ''d''] 3 (Some 1))) = 3 \<and>
   distinct (pickN_idxs rnd_zero 0 (length [''a'', ''b'', ''c'', ''d'']) 3 (Some 1)) \<and>
   (0::nat) < length [[''a'', ''b'', ''c'', ''d'']] \<and>
   pickN_store rnd_zero 0 [[''a'', ''b'', ''c'', ''d'']] 0 3 (Some 1)
     = ([[''a'', ''b'', ''c'', ''d''], [''c'', ''d'', ''a'']], 1)"
proof -
  have n: "(0::int) \<le> 3" by simp
  note t = pickN_sample[where n = 3 and rnd = rnd_zero and k = 0
      and pool = "[''a'', ''b'', ''c'', ''d'']" and av = "Some 1" and arr = 0
      and h = "[[''a'', ''b'', ''c'', ''d'']]", rule_format, OF n]
  have a: "pickN rnd_zero 0 [''a'', ''b'', ''c'', ''d''] 3 (Some 1) = [''c'', ''d'', ''a'']"
    by (rule pickN_zero_abcd)
  have b: "int (length (pickN rnd_zero 0 [''a'', ''b'', ''c'', ''d''] 3 (Some 1))) = 3"
    by (simp add: a)
  have c: "distinct (pickN_idxs rnd_zero 0 (length [''a'', ''b'', ''c'', ''d'']) 3 (Some 1))"
    using t by blast
  have d: "(0::nat) < length [[''a'', ''b'', ''c'', ''d'']]"
    by simp
  have e: "pickN_store rnd_zero 0 [[''a'', ''b'', ''c'', ''d'']] 0 3 (Some 1)
     = ([[''a'', ''b'', ''c'', ''d''], [''c'', ''d'', ''a'']], 1)"
    using a by (simp add: pickN_store_def alloc_def pickN_def)
  from n a b c d e show ?thesis by blast
qed

section \<open>Properties of the session state\<close>

lemmas eval_defs = handleLoadCsv_def setRows_def relist_def hardResetProgress_def initState_def
  flashcardAnswer_def current_def nth_opt_def nextCard_def nextCard_at_def nextCard_ludy_def
  addWrong_def key_def advance_def clamp_def Let_def handleAnswerSubmit_def target_def
  qcmClick_def step_def reregister_def

lemmas string_defs = toLowerCase_def toUpperCase_def lower_char_def upper_char_def trim_def
  isSpace_def

lemma writing_start_eq:
  "writing_start =
     \<lparr>rows = [cat, dog], trainingRows = [cat, dog], wrongRows = [], list' = [cat, dog],
      mode = writing, direction = FR_EN, index = 0, showBack = False, answer = [],
      score = \<lparr>good = 0, total' = 0\<rparr>, currentStreak = 0, bestStreak = 0, shuffleOn = False,
      lastAnswerCorrect = None, selectedQcmOption = None, qcmAnswered = False,
      keyCurrent = Some cat, pendingLoad = None\<rparr>"
  by (simp add: writing_start_def eval_defs)

lemma qcm_start_eq:
  "qcm_start =
     \<lparr>rows = [cat, dog], trainingRows = [cat, dog], wrongRows = [], list' = [cat, dog],
      mode = qcm, direction = FR_EN, index = 0, showBack = False, answer = [],
      score = \<lparr>good = 0, total' = 0\<rparr>, currentStreak = 0, bestStreak = 0, shuffleOn = False,
      lastAnswerCorrect = None, selectedQcmOption = None, qcmAnswered = False,
      keyCurrent = Some cat, pendingLoad = None\<rparr>"
  by (simp add: qcm_start_def eval_defs)

lemma writing_start_fr_eq:
  "writing_start_fr =
     \<lparr>rows = [cat, dog], trainingRows = [cat, dog], wrongRows = [], list' = [cat, dog],
      mode = writing, direction = EN_FR, index = 0, showBack = False, answer = [],
      score = \<lparr>good = 0, total' = 0\<rparr>, currentStreak = 0, bestStreak = 0, shuffleOn = False,
      lastAnswerCorrect = None, selectedQcmOption = None, qcmAnswered = False,
      keyCurrent = Some cat, pendingLoad = None\<rparr>"
  by (simp add: writing_start_fr_def eval_defs)

lemma qcm_start_fr_eq:
  "qcm_start_fr =
     \<lparr>rows = [cat, dog], trainingRows = [cat, dog], wrongRows = [], list' = [cat, dog],
      mode = qcm, direction = EN_FR, index = 0, showBack = False, answer = [],
      score = \<lparr>good = 0, total' = 0\<rparr>, currentStreak = 0, bestStreak = 0, shuffleOn = False,
      lastAnswerCorrect = None, selectedQcmOption = None, qcmAnswered = False,
      keyCurrent = Some cat, pendingLoad = None\<rparr>"
  by (simp add: qcm_start_fr_def eval_defs)

lemma current_in_list: "current s = Some cur \<Longrightarrow> cur \<in> set (list' s)"
  by (auto simp: current_def nth_opt_def split: if_splits)

subsection \<open>Scoring\<close>

text \<open>
  Claim C1. For every answer submission with a boolean verdict, in the full component and
  in the earlier one: \<open>score.total\<close> grows by one; \<open>score.good\<close> grows by one when the
  verdict is correct and stays otherwise; \<open>currentStreak\<close> becomes \<open>currentStreak + 1\<close>
  on a correct verdict and 0 on an incorrect one; and \<open>bestStreak\<close> becomes the maximum
  of its previous value and the new \<open>currentStreak\<close>.
\<close>

theorem nextCard_scoring:
  "total' (score (nextCard (Some verdict) s)) = total' (score s) + 1 \<and>
   good (score (nextCard (Some verdict) s)) = good (score s) + (if verdict then 1 else 0) \<and>
   currentStreak (nextCard (Some verdict) s) = (if verdict then currentStreak s + 1 else 0) \<and>
   bestStreak (nextCard (Some verdict) s)
     = max (bestStreak s) (currentStreak (nextCard (Some verdict) s)) \<and>
   total' (score (nextCard_ludy (Some verdict) s)) = total' (score s) + 1 \<and>
   good (score (nextCard_ludy (Some verdict) s)) = good (score s) + (if verdict then 1 else 0) \<and>
   currentStreak (nextCard_ludy (Some verdict) s) = (if verdict then currentStreak s + 1 else 0) \<and>
   bestStreak (nextCard_ludy (Some verdict) s)
     = max (bestStreak s) (currentStreak (nextCard_ludy (Some verdict) s))"
  by (cases verdict)
    (simp_all add: nextCard_def nextCard_at_def nextCard_ludy_def Let_def split: option.split)

theorem nextCard_scoring_witness:
  "total' (score (nextCard (Some True) writing_start)) = 1 \<and>
   good (score (nextCard (Some True) writing_start)) = 1 \<and>
   currentStreak (nextCard (Some True) writing_start) = 1 \<and>
   bestStreak (nextCard (Some True) writing_start) = 1 \<and>
   total' (score (nextCard_ludy (Some False) writing_start)) = 1 \<and>
   good (score (nextCard_ludy (Some False) writing_start)) = 0 \<and>
   currentStreak (nextCard_ludy (Some False) writing_start) = 0"
proof -
  have z: "total' (score writing_start) = 0" "good (score writing_start) = 0"
    "currentStreak writing_start = 0" "bestStreak writing_start = 0"
    by (simp_all add: writing_start_eq)
  show ?thesis
    using nextCard_scoring[where verdict = True and s = writing_start]
      nextCard_scoring[where verdict = False and s = writing_start]
    unfolding z by simp
qed

subsection \<open>The scoring invariant\<close>

text \<open>
  The handlers of the trainer itself keep the invariant of the scoring cells: from an
  initial state with a stored best streak that is not negative, after every sequence of
  events none of which is an event of the remote document, \<open>score.good\<close> is at most
  \<open>score.total\<close> and \<open>currentStreak\<close> is at most \<open>bestStreak\<close>.
\<close>

lemma scoring_inv_handler:
  "\<not> is_remote e \<Longrightarrow> scoring_inv s \<Longrightarrow> scoring_inv (handler rnd e s)"
  by (cases e)
    (simp_all add: scoring_inv_def handleParse_def handleLoadCsv_def setRows_def relist_def
      hardResetProgress_def changeMode_def changeDirection_def toggleShuffle_def fullSession_def
      wrongOnly_def flashcardAnswer_def spaceKey_def previous_def forward_def jumpTo_def
      qcmClick_def writingSubmit_def handleAnswerSubmit_def advance_def nextCard_def
      nextCard_at_def Let_def le_max_iff_disj
      split: option.split)

lemma scoring_inv_reregister: "scoring_inv (reregister b old new) = scoring_inv new"
  by (simp add: reregister_def scoring_inv_def)

lemma scoring_inv_step: "\<not> is_remote e \<Longrightarrow> scoring_inv s \<Longrightarrow> scoring_inv (step rnd e s)"
  by (simp add: step_def scoring_inv_reregister scoring_inv_handler)

lemma scoring_inv_run:
  "list_all (\<lambda>(rnd, e). \<not> is_remote e) evs \<Longrightarrow> scoring_inv s \<Longrightarrow> scoring_inv (run evs s)"
  by (induction evs arbitrary: s) (auto simp: scoring_inv_step)

lemma scoring_inv_init: "0 \<le> stored \<Longrightarrow> scoring_inv (initState m d sh stored)"
  by (simp add: scoring_inv_def initState_def)

lemma score_streak_invariant_local:
  assumes "0 \<le> stored" and "list_all (\<lambda>(rnd, e). \<not> is_remote e) evs"
  shows "good (score (run evs (initState m d sh stored)))
           \<le> total' (score (run evs (initState m d sh stored))) \<and>
         currentStreak (run evs (initState m d sh stored))
           \<le> bestStreak (run evs (initState m d sh stored))"
  using scoring_inv_run[OF assms(2) scoring_inv_init[OF assms(1)], of m d sh]
  by (simp add: scoring_inv_def)

text \<open>
  Claim C4 asks that \<open>currentStreak\<close> be at most \<open>bestStreak\<close> after every sequence of
  operations from an initial state. The component also writes \<open>bestStreak\<close> through
  \<open>useUserData\<close>, which compares the remote value with the \<open>bestStreak\<close> of the render
  that started the load and then sets the remote value as it is. With a stored best streak
  of 0: the user signs in (the load starts and holds 0), two entries are imported, three
  answers in a row are correct (the streak and the best streak are 3), and the document
  arrives with a best streak of 2; since 2 is greater than 0 the best streak is set to 2,
  below the running streak of 3.
\<close>

theorem bestStreak_lowered_by_remote:
  "currentStreak
     (run [(rnd_zero, UserChanged True), (rnd_zero, Loaded [cat, dog]),
           (rnd_zero, FlashcardAnswer True), (rnd_zero, Timeout flashcards 2),
           (rnd_zero, FlashcardAnswer True), (rnd_zero, Timeout flashcards 2),
           (rnd_zero, FlashcardAnswer True)]
        (initState flashcards FR_EN False 0)) = 3 \<and>
   bestStreak
     (run [(rnd_zero, UserChanged True), (rnd_zero, Loaded [cat, dog]),
           (rnd_zero, FlashcardAnswer True), (rnd_zero, Timeout flashcards 2),
           (rnd_zero, FlashcardAnswer True), (rnd_zero, Timeout flashcards 2),
           (rnd_zero, FlashcardAnswer True)]
        (initState flashcards FR_EN False 0)) = 3 \<and>
   currentStreak
     (run [(rnd_zero, UserChanged True), (rnd_zero, Loaded [cat, dog]),
           (rnd_zero, FlashcardAnswer True), (rnd_zero, Timeout flashcards 2),
           (rnd_zero, FlashcardAnswer True), (rnd_zero, Timeout flashcards 2),
           (rnd_zero, FlashcardAnswer True), (rnd_zero, RemoteDoc (Some 2))]
        (initState flashcards FR_EN False 0)) = 3 \<and>
   bestStreak
     (run [(rnd_zero, UserChanged True), (rnd_zero, Loaded [cat, dog]),
           (rnd_zero, FlashcardAnswer True), (rnd_zero, Timeout flashcards 2),
           (rnd_zero, FlashcardAnswer True), (rnd_zero, Timeout flashcards 2),
           (rnd_zero, FlashcardAnswer True), (rnd_zero, RemoteDoc (Some 2))]
        (initState flashcards FR_EN False 0)) = 2"
  by (simp add: eval_defs userChanged_def loadResolved_def)

subsection \<open>The mistake list\<close>

text \<open>
  What holds of \<open>wrongRows\<close> on every run: no two of its entries have the same key, hence
  no two have the same pair of EN and FR; an event other than an import only appends to
  it; and after an incorrect answer an entry with the key of the current entry is in it.
\<close>

lemma distinct_addWrong: "distinct (map key wr) \<Longrightarrow> distinct (map key (addWrong cur wr))"
  by (auto simp: addWrong_def list_ex_iff)

lemma distinct_keys_nextCard_at:
  "distinct (map key (wrongRows s)) \<Longrightarrow> distinct (map key (wrongRows (nextCard_at cur c s)))"
  by (simp add: nextCard_at_def Let_def distinct_addWrong split: option.split)

lemma distinct_keys_nextCard:
  "distinct (map key (wrongRows s)) \<Longrightarrow> distinct (map key (wrongRows (nextCard c s)))"
  by (simp add: nextCard_def distinct_keys_nextCard_at)

lemma wrongRows_reregister: "wrongRows (reregister b old new) = wrongRows new"
  by (simp add: reregister_def)

lemma distinct_keys_step:
  "distinct (map key (wrongRows s)) \<Longrightarrow> distinct (map key (wrongRows (step rnd e s)))"
  unfolding step_def wrongRows_reregister
  by (cases e)
    (simp_all add: handleParse_def handleLoadCsv_def setRows_def relist_def
      hardResetProgress_def changeMode_def changeDirection_def toggleShuffle_def fullSession_def
      wrongOnly_def flashcardAnswer_def spaceKey_def previous_def forward_def jumpTo_def
      qcmClick_def writingSubmit_def handleAnswerSubmit_def advance_def distinct_keys_nextCard
      distinct_keys_nextCard_at userChanged_def loadResolved_def Let_def
      split: option.split)

lemma distinct_keys_run:
  "distinct (map key (wrongRows s)) \<Longrightarrow> distinct (map key (wrongRows (run evs s)))"
  by (induction evs arbitrary: s) (auto simp: distinct_keys_step)

lemma distinct_pairs_of_keys:
  "distinct (map key wr) \<Longrightarrow> distinct (map (\<lambda>v. (EN v, FR v)) wr)"
  by (induction wr) (auto simp: key_def)

lemma wrongRows_no_duplicates:
  "distinct (map (\<lambda>v. (EN v, FR v)) (wrongRows (run evs (initState m d sh stored))))"
  by (rule distinct_pairs_of_keys, rule distinct_keys_run) (simp add: initState_def)

lemma wrongRows_grows:
  "(\<forall>data. e \<noteq> Parsed data) \<Longrightarrow> (\<forall>loaded. e \<noteq> Loaded loaded) \<Longrightarrow>
   \<exists>new. wrongRows (step rnd e s) = wrongRows s @ new"
  unfolding step_def wrongRows_reregister
  by (cases e)
    (simp_all add: relist_def hardResetProgress_def changeMode_def changeDirection_def
      toggleShuffle_def fullSession_def wrongOnly_def flashcardAnswer_def spaceKey_def
      previous_def forward_def jumpTo_def qcmClick_def writingSubmit_def handleAnswerSubmit_def
      advance_def nextCard_def nextCard_at_def addWrong_def userChanged_def loadResolved_def
      Let_def split: option.split)

lemma wrongRows_has_key:
  "current s = Some cur \<Longrightarrow> \<exists>v \<in> set (wrongRows (nextCard (Some False) s)). key v = key cur"
  by (auto simp: nextCard_def nextCard_at_def Let_def addWrong_def list_ex_iff)

text \<open>
  Claim C2 asks that after an incorrect answer the current entry be in the mistake list,
  entries being told apart by the pair of EN and FR. The list tells them apart by the
  string \<^verbatim>\<open>`${v.EN}__${v.FR}`\<close>, which two different pairs can share. With the entries
  (\<open>a__b\<close>, \<open>c\<close>) and (\<open>a\<close>, \<open>b__c\<close>) loaded and both answered incorrectly, the second
  is the current entry at its answer and is not in the list afterwards, in the full
  component and in the earlier one.
\<close>

theorem wrongRows_key_collision:
  "current (run [(rnd_zero, Loaded [entry_ab_c, entry_a_bc]), (rnd_zero, FlashcardAnswer False),
        (rnd_zero, Timeout flashcards 2)] (initState flashcards FR_EN False 0))
     = Some entry_a_bc \<and>
   wrongRows (run [(rnd_zero, Loaded [entry_ab_c, entry_a_bc]), (rnd_zero, FlashcardAnswer False),
        (rnd_zero, Timeout flashcards 2), (rnd_zero, FlashcardAnswer False)]
        (initState flashcards FR_EN False 0)) = [entry_ab_c] \<and>
   current (nextCard_ludy (Some False)
        (handleLoadCsv rnd_zero [entry_ab_c, entry_a_bc] (initState flashcards FR_EN False 0)))
     = Some entry_a_bc \<and>
   wrongRows (nextCard_ludy (Some False) (nextCard_ludy (Some False)
        (handleLoadCsv rnd_zero [entry_ab_c, entry_a_bc] (initState flashcards FR_EN False 0))))
     = [entry_ab_c] \<and>
   (EN entry_a_bc, FR entry_a_bc) \<notin> set (map (\<lambda>v. (EN v, FR v)) [entry_ab_c]) \<and>
   key entry_a_bc = key entry_ab_c"
  by (simp add: eval_defs entry_ab_c_def entry_a_bc_def)

subsection \<open>The space bar\<close>

text \<open>
  The \<open>keydown\<close> handler keeps the entry of the render that registered it. After the
  import of the two example entries in the flashcard mode and a turn of the card, the
  handler holds \<open>cat\<close>; switching the shuffle on reorders the list (here to \<open>dog\<close>,
  \<open>cat\<close>) without changing any dependency of the registration, so \<open>dog\<close> is current
  and the space bar, which submits without a verdict, puts \<open>cat\<close> on the mistake list.
\<close>

lemma spaceKey_stale_entry:
  "current (run [(rnd_zero, Loaded [cat, dog]), (rnd_zero, ToggleBack), (rnd_zero, ToggleShuffle)]
              (initState flashcards FR_EN False 0)) = Some dog \<and>
   keyCurrent (run [(rnd_zero, Loaded [cat, dog]), (rnd_zero, ToggleBack), (rnd_zero, ToggleShuffle)]
              (initState flashcards FR_EN False 0)) = Some cat \<and>
   wrongRows (run [(rnd_zero, Loaded [cat, dog]), (rnd_zero, ToggleBack), (rnd_zero, ToggleShuffle),
                   (rnd_zero, SpaceKey)]
              (initState flashcards FR_EN False 0)) = [cat] \<and>
   total' (score (run [(rnd_zero, Loaded [cat, dog]), (rnd_zero, ToggleBack),
                       (rnd_zero, ToggleShuffle), (rnd_zero, SpaceKey)]
              (initState flashcards FR_EN False 0))) = 1"
  by (simp add: eval_defs toggleShuffle_def spaceKey_def shuffle_def swap_def rnd_zero_def
      random_index_zero cat_def dog_def eval_nat_numeral)

subsection \<open>The answered-lock of the multiple choice mode\<close>

lemma qcm_first_click:
  "qcmClick ''cat'' qcm_start =
     \<lparr>rows = [cat, dog], trainingRows = [cat, dog], wrongRows = [], list' = [cat, dog],
      mode = qcm, direction = FR_EN, index = 0, showBack = False, answer = [],
      score = \<lparr>good = 1, total' = 1\<rparr>, currentStreak = 1, bestStreak = 1, shuffleOn = False,
      lastAnswerCorrect = Some True, selectedQcmOption = Some ''cat'', qcmAnswered = True,
      keyCurrent = Some cat, pendingLoad = None\<rparr>"
  by (simp add: qcm_start_eq eval_defs cat_def)

lemma qcm_click_back_click:
  "run [(rnd_zero, QcmClick ''cat''), (rnd_zero, Forward), (rnd_zero, Previous)] qcm_start =
     \<lparr>rows = [cat, dog], trainingRows = [cat, dog], wrongRows = [], list' = [cat, dog],
      mode = qcm, direction = FR_EN, index = 0, showBack = False, answer = [],
      score = \<lparr>good = 1, total' = 1\<rparr>, currentStreak = 1, bestStreak = 1, shuffleOn = False,
      lastAnswerCorrect = Some True, selectedQcmOption = None, qcmAnswered = False,
      keyCurrent = Some cat, pendingLoad = None\<rparr>"
  by (simp add: qcm_start_eq eval_defs cat_def forward_def previous_def jumpTo_def)

text \<open>
  Claim C3, as stated, lets only the advance end the lock: a further choice for the same
  entry before the advance would change nothing. In the full component \<open>jumpTo\<close> clears
  the lock as well, and the navigation stays enabled during the delay: after a choice on
  the first entry, one step forward and one step back, the same entry is current, no advance
  and no reset has run, and a second choice on it is scored (the score goes from 1/1 to
  2/2). The earlier component has no lock at all: at the last entry, where the advance is
  clamped, the same entry stays current and every choice is scored.
\<close>

theorem qcm_second_choice_scored:
  "current qcm_start = Some cat \<and>
   score (run [(rnd_zero, QcmClick ''cat'')] qcm_start) = \<lparr>good = 1, total' = 1\<rparr> \<and>
   current (run [(rnd_zero, QcmClick ''cat''), (rnd_zero, Forward), (rnd_zero, Previous)]
              qcm_start) = Some cat \<and>
   score (run [(rnd_zero, QcmClick ''cat''), (rnd_zero, Forward), (rnd_zero, Previous),
               (rnd_zero, QcmClick ''cat'')] qcm_start) = \<lparr>good = 2, total' = 2\<rparr> \<and>
   current (qcm_start\<lparr>index := 1\<rparr>) = Some dog \<and>
   current (qcmClick_ludy ''dog'' (qcm_start\<lparr>index := 1\<rparr>)) = Some dog \<and>
   score (qcmClick_ludy ''dog'' (qcm_start\<lparr>index := 1\<rparr>)) = \<lparr>good = 1, total' = 1\<rparr> \<and>
   score (qcmClick_ludy ''dog'' (qcmClick_ludy ''dog'' (qcm_start\<lparr>index := 1\<rparr>)))
     = \<lparr>good = 2, total' = 2\<rparr>"
  by (simp add: qcm_start_eq eval_defs cat_def dog_def forward_def previous_def jumpTo_def
      qcmClick_ludy_def)

lemma step_cells:
  "mode (step rnd e s) = mode (handler rnd e s)"
  "qcmAnswered (step rnd e s) = qcmAnswered (handler rnd e s)"
  "score (step rnd e s) = score (handler rnd e s)"
  "currentStreak (step rnd e s) = currentStreak (handler rnd e s)"
  "bestStreak (step rnd e s) = bestStreak (handler rnd e s)"
  "wrongRows (step rnd e s) = wrongRows (handler rnd e s)"
  by (simp_all add: step_def reregister_def)

text \<open>
  Claim C3, amended. In the multiple choice mode of the full component a click on an
  option while \<open>qcmAnswered\<close> is set changes nothing; a click on an option of a current
  entry while it is not set is the answer submission for that option, sets the lock and
  records the option, and leaves the entry current; hence every sequence of further clicks
  after a first one leaves the state, and so the score, the streaks and the mistake list,
  as the first click left them. While the lock is set, every event other than the delayed
  advance, a navigation or a reset leaves the lock, the score, the running streak and the
  mistake list as they are (and the best streak too, unless the event is one of the remote
  document). The delayed advance of a multiple choice answer, \<open>jumpTo\<close> and
  \<open>hardResetProgress\<close> clear the lock, after which a choice is accepted again, also for
  the same entry. The earlier component has no lock: there every click on an option of a
  current entry is an answer submission, counted in \<open>score.total\<close>, with the advance in
  the same transition.
\<close>

theorem qcm_answered_lock:
  "(qcmAnswered s \<longrightarrow> qcmClick opt s = s) \<and>
   (mode s = qcm \<and> current s = Some cur \<and> \<not> qcmAnswered s \<longrightarrow>
      qcmClick opt s = nextCard (Some (opt = target (direction s) cur))
                         (s\<lparr>selectedQcmOption := Some opt, qcmAnswered := True\<rparr>) \<and>
      qcmAnswered (qcmClick opt s) \<and> selectedQcmOption (qcmClick opt s) = Some opt \<and>
      mode (qcmClick opt s) = qcm \<and> current (qcmClick opt s) = Some cur) \<and>
   (mode s = qcm \<and> current s = Some cur \<longrightarrow>
      fold qcmClick opts (qcmClick opt s) = qcmClick opt s) \<and>
   (mode s = qcm \<and> qcmAnswered s \<and> \<not> releases e \<longrightarrow>
      qcmAnswered (step rnd e s) \<and> mode (step rnd e s) = qcm \<and>
      score (step rnd e s) = score s \<and> currentStreak (step rnd e s) = currentStreak s \<and>
      wrongRows (step rnd e s) = wrongRows s \<and>
      (\<not> is_remote e \<longrightarrow> bestStreak (step rnd e s) = bestStreak s)) \<and>
   \<not> qcmAnswered (advance qcm len s) \<and> \<not> qcmAnswered (jumpTo i s) \<and>
   \<not> qcmAnswered (hardResetProgress s) \<and>
   (mode s = qcm \<and> current s = Some cur \<longrightarrow>
      qcmClick_ludy opt s = nextCard_ludy (Some (opt = target (direction s) cur)) s \<and>
      total' (score (qcmClick_ludy opt s)) = total' (score s) + 1 \<and>
      index (qcmClick_ludy opt s) = clamp (index s + 1) 0 (max (int (length (list' s)) - 1) 0))"
proof (intro conjI impI)
  show "\<not> qcmAnswered (advance qcm len s)" "\<not> qcmAnswered (jumpTo i s)"
    "\<not> qcmAnswered (hardResetProgress s)"
    by (simp_all add: advance_def jumpTo_def hardResetProgress_def Let_def)
  show "qcmClick_ludy opt s = nextCard_ludy (Some (opt = target (direction s) cur)) s"
    "total' (score (qcmClick_ludy opt s)) = total' (score s) + 1"
    "index (qcmClick_ludy opt s) = clamp (index s + 1) 0 (max (int (length (list' s)) - 1) 0)"
    if "mode s = qcm \<and> current s = Some cur"
    using that by (simp_all add: qcmClick_ludy_def nextCard_ludy_def Let_def)
  have kept: "qcmAnswered (handler rnd e s) \<and> mode (handler rnd e s) = qcm \<and>
      score (handler rnd e s) = score s \<and> currentStreak (handler rnd e s) = currentStreak s \<and>
      wrongRows (handler rnd e s) = wrongRows s \<and>
      (\<not> is_remote e \<longrightarrow> bestStreak (handler rnd e s) = bestStreak s)"
    if "mode s = qcm \<and> qcmAnswered s \<and> \<not> releases e"
    using that
    by (cases e)
      (simp_all add: toggleShuffle_def relist_def flashcardAnswer_def spaceKey_def
        qcmClick_def writingSubmit_def userChanged_def loadResolved_def Let_def
        split: option.split)
  show "qcmAnswered (step rnd e s)" "mode (step rnd e s) = qcm" "score (step rnd e s) = score s"
    "currentStreak (step rnd e s) = currentStreak s" "wrongRows (step rnd e s) = wrongRows s"
    if "mode s = qcm \<and> qcmAnswered s \<and> \<not> releases e"
    using kept[OF that] by (simp_all add: step_cells)
  show "bestStreak (step rnd e s) = bestStreak s"
    if "mode s = qcm \<and> qcmAnswered s \<and> \<not> releases e" "\<not> is_remote e"
    using kept[OF that(1)] that(2) by (simp add: step_cells)
  show locked: "qcmClick opt s = s" if "qcmAnswered s" for opt s
    using that by (simp add: qcmClick_def split: option.split)
  have first: "qcmAnswered (qcmClick opt s)" if "mode s = qcm" "current s = Some cur"
    using that
    by (simp add: qcmClick_def nextCard_def nextCard_at_def Let_def current_def
        split: option.split)
  show "fold qcmClick opts (qcmClick opt s) = qcmClick opt s"
    if "mode s = qcm \<and> current s = Some cur"
  proof -
    have "qcmAnswered t \<Longrightarrow> fold qcmClick opts t = t" for t
      by (induction opts) (simp_all add: locked)
    then show ?thesis using first that by blast
  qed
  assume a: "mode s = qcm \<and> current s = Some cur \<and> \<not> qcmAnswered s"
  then show "qcmClick opt s = nextCard (Some (opt = target (direction s) cur))
                         (s\<lparr>selectedQcmOption := Some opt, qcmAnswered := True\<rparr>)"
    by (simp add: qcmClick_def)
  from a show "qcmAnswered (qcmClick opt s)" using first by blast
  from a show "selectedQcmOption (qcmClick opt s) = Some opt"
    by (simp add: qcmClick_def nextCard_def nextCard_at_def Let_def current_def
        split: option.split)
  from a show "mode (qcmClick opt s) = qcm"
    by (simp add: qcmClick_def nextCard_def nextCard_at_def Let_def current_def
        split: option.split)
  from a show "current (qcmClick opt s) = Some cur"
    by (simp add: qcmClick_def nextCard_def nextCard_at_def Let_def current_def
        split: option.split)
qed

theorem qcm_answered_lock_witness:
  "mode qcm_start = qcm \<and> current qcm_start = Some cat \<and> \<not> qcmAnswered qcm_start \<and>
   qcmAnswered (qcmClick ''cat'' qcm_start) \<and>
   fold qcmClick [''dog'', ''cat''] (qcmClick ''cat'' qcm_start) = qcmClick ''cat'' qcm_start \<and>
   qcmClick ''dog'' (qcmClick ''cat'' qcm_start) = qcmClick ''cat'' qcm_start \<and>
   score (qcmClick ''cat'' qcm_start) = \<lparr>good = 1, total' = 1\<rparr> \<and>
   wrongRows (qcmClick ''cat'' qcm_start) = [] \<and>
   \<not> releases ToggleShuffle \<and> \<not> is_remote ToggleShuffle \<and>
   qcmAnswered (step rnd_zero ToggleShuffle (qcmClick ''cat'' qcm_start)) \<and>
   score (step rnd_zero ToggleShuffle (qcmClick ''cat'' qcm_start))
     = score (qcmClick ''cat'' qcm_start)"
proof -
  have pre: "mode qcm_start = qcm \<and> current qcm_start = Some cat \<and> \<not> qcmAnswered qcm_start"
    by (simp add: qcm_start_eq current_def nth_opt_def)
  note t = qcm_answered_lock[where s = qcm_start and cur = cat and opt = "''cat''"
      and opts = "[''dog'', ''cat'']" and e = ToggleBack]
  have a: "qcmAnswered (qcmClick ''cat'' qcm_start)" using t pre by blast
  have b: "fold qcmClick [''dog'', ''cat''] (qcmClick ''cat'' qcm_start) = qcmClick ''cat'' qcm_start"
    using t pre by blast
  note u = qcm_answered_lock[where s = "qcmClick ''cat'' qcm_start" and opt = "''dog''"
        and e = ToggleShuffle and rnd = rnd_zero]
  have c: "qcmClick ''dog'' (qcmClick ''cat'' qcm_start) = qcmClick ''cat'' qcm_start"
    using u a by blast
  have d: "score (qcmClick ''cat'' qcm_start) = \<lparr>good = 1, total' = 1\<rparr>"
    "wrongRows (qcmClick ''cat'' qcm_start) = []"
    by (simp_all add: qcm_first_click)
  have m: "mode (qcmClick ''cat'' qcm_start) = qcm" using t pre by blast
  have r: "\<not> releases ToggleShuffle" "\<not> is_remote ToggleShuffle" by simp_all
  have k: "qcmAnswered (step rnd_zero ToggleShuffle (qcmClick ''cat'' qcm_start))"
    "score (step rnd_zero ToggleShuffle (qcmClick ''cat'' qcm_start))
       = score (qcmClick ''cat'' qcm_start)"
    using u m a r(1) by blast+
  from pre a b c d r k show ?thesis by blast
qed

subsection \<open>The writing mode\<close>

text \<open>
  Claim C9. With a current entry, \<open>handleAnswerSubmit\<close> is the answer submission whose
  verdict is the equality of the typed text and the target field of the current entry,
  each trimmed and then put in lower case: the target field is \<open>EN\<close> in the direction
  from French to English and \<open>FR\<close> in the direction from English to French. The verdict
  recorded is that equality, and the count of correct answers grows exactly when it holds.
  No other comparison takes part. The same holds of the earlier component. Without a
  current entry nothing is submitted.
\<close>

theorem writing_verdict:
  "(current s = Some cur \<and> direction s = FR_EN \<longrightarrow>
     lastAnswerCorrect (handleAnswerSubmit s)
       = Some (toLowerCase (trim (answer s)) = toLowerCase (trim (EN cur))) \<and>
     handleAnswerSubmit s
       = nextCard (Some (toLowerCase (trim (answer s)) = toLowerCase (trim (EN cur)))) s \<and>
     (good (score (handleAnswerSubmit s)) = good (score s) + 1
       \<longleftrightarrow> toLowerCase (trim (answer s)) = toLowerCase (trim (EN cur))) \<and>
     handleAnswerSubmit_ludy s
       = nextCard_ludy (Some (toLowerCase (trim (answer s)) = toLowerCase (trim (EN cur)))) s \<and>
     (good (score (handleAnswerSubmit_ludy s)) = good (score s) + 1
       \<longleftrightarrow> toLowerCase (trim (answer s)) = toLowerCase (trim (EN cur)))) \<and>
   (current s = Some cur \<and> direction s = EN_FR \<longrightarrow>
     lastAnswerCorrect (handleAnswerSubmit s)
       = Some (toLowerCase (trim (answer s)) = toLowerCase (trim (FR cur))) \<and>
     handleAnswerSubmit s
       = nextCard (Some (toLowerCase (trim (answer s)) = toLowerCase (trim (FR cur)))) s \<and>
     (good (score (handleAnswerSubmit s)) = good (score s) + 1
       \<longleftrightarrow> toLowerCase (trim (answer s)) = toLowerCase (trim (FR cur))) \<and>
     handleAnswerSubmit_ludy s
       = nextCard_ludy (Some (toLowerCase (trim (answer s)) = toLowerCase (trim (FR cur)))) s \<and>
     (good (score (handleAnswerSubmit_ludy s)) = good (score s) + 1
       \<longleftrightarrow> toLowerCase (trim (answer s)) = toLowerCase (trim (FR cur)))) \<and>
   (current s = None \<longrightarrow> handleAnswerSubmit s = s \<and> handleAnswerSubmit_ludy s = s)"
  by (simp add: handleAnswerSubmit_def handleAnswerSubmit_ludy_def nextCard_def nextCard_at_def
      nextCard_ludy_def target_def Let_def)

lemma scenario_1:
  "handleAnswerSubmit (writing_start\<lparr>answer := '' Cat ''\<rparr>)
     = \<lparr>rows = [cat, dog], trainingRows = [cat, dog], wrongRows = [], list' = [cat, dog],
      mode = writing, direction = FR_EN, index = 0, showBack = False, answer = '' Cat '',
      score = \<lparr>good = 1, total' = 1\<rparr>, currentStreak = 1, bestStreak = 1, shuffleOn = False,
      lastAnswerCorrect = Some True, selectedQcmOption = None, qcmAnswered = False,
      keyCurrent = Some cat, pendingLoad = None\<rparr>"
  by (simp add: writing_start_eq eval_defs string_defs cat_def)

lemma scenario_2:
  "handleAnswerSubmit (writing_start\<lparr>answer := ''catt''\<rparr>)
     = \<lparr>rows = [cat, dog], trainingRows = [cat, dog], wrongRows = [cat], list' = [cat, dog],
      mode = writing, direction = FR_EN, index = 0, showBack = False, answer = ''catt'',
      score = \<lparr>good = 0, total' = 1\<rparr>, currentStreak = 0, bestStreak = 0, shuffleOn = False,
      lastAnswerCorrect = Some False, selectedQcmOption = None, qcmAnswered = False,
      keyCurrent = Some cat, pendingLoad = None\<rparr>"
  by (simp add: writing_start_eq eval_defs string_defs cat_def)

text \<open>
  In the direction from English to French the prompt is \<open>cat\<close> and the target \<open>chat\<close>:
  \<open>Chat\<close> is correct, and the prompt typed back is not.
\<close>

lemma scenario_fr_1:
  "handleAnswerSubmit (writing_start_fr\<lparr>answer := ''Chat ''\<rparr>)
     = \<lparr>rows = [cat, dog], trainingRows = [cat, dog], wrongRows = [], list' = [cat, dog],
      mode = writing, direction = EN_FR, index = 0, showBack = False, answer = ''Chat '',
      score = \<lparr>good = 1, total' = 1\<rparr>, currentStreak = 1, bestStreak = 1, shuffleOn = False,
      lastAnswerCorrect = Some True, selectedQcmOption = None, qcmAnswered = False,
      keyCurrent = Some cat, pendingLoad = None\<rparr>"
  by (simp add: writing_start_fr_eq eval_defs string_defs cat_def)

lemma scenario_fr_2:
  "handleAnswerSubmit (writing_start_fr\<lparr>answer := ''cat''\<rparr>)
     = \<lparr>rows = [cat, dog], trainingRows = [cat, dog], wrongRows = [cat], list' = [cat, dog],
      mode = writing, direction = EN_FR, index = 0, showBack = False, answer = ''cat'',
      score = \<lparr>good = 0, total' = 1\<rparr>, currentStreak = 0, bestStreak = 0, shuffleOn = False,
      lastAnswerCorrect = Some False, selectedQcmOption = None, qcmAnswered = False,
      keyCurrent = Some cat, pendingLoad = None\<rparr>"
  by (simp add: writing_start_fr_eq eval_defs string_defs cat_def)

theorem writing_verdict_witness:
  "current (writing_start\<lparr>answer := '' Cat ''\<rparr>) = Some cat \<and>
   direction (writing_start\<lparr>answer := '' Cat ''\<rparr>) = FR_EN \<and>
   lastAnswerCorrect (handleAnswerSubmit (writing_start\<lparr>answer := '' Cat ''\<rparr>)) = Some True \<and>
   score (handleAnswerSubmit (writing_start\<lparr>answer := '' Cat ''\<rparr>)) = \<lparr>good = 1, total' = 1\<rparr> \<and>
   wrongRows (handleAnswerSubmit (writing_start\<lparr>answer := '' Cat ''\<rparr>)) = [] \<and>
   current (writing_start\<lparr>answer := ''catt''\<rparr>) = Some cat \<and>
   direction (writing_start\<lparr>answer := ''catt''\<rparr>) = FR_EN \<and>
   lastAnswerCorrect (handleAnswerSubmit (writing_start\<lparr>answer := ''catt''\<rparr>)) = Some False \<and>
   score (handleAnswerSubmit (writing_start\<lparr>answer := ''catt''\<rparr>)) = \<lparr>good = 0, total' = 1\<rparr> \<and>
   wrongRows (handleAnswerSubmit (writing_start\<lparr>answer := ''catt''\<rparr>)) = [cat] \<and>
   current (writing_start_fr\<lparr>answer := ''Chat ''\<rparr>) = Some cat \<and>
   direction (writing_start_fr\<lparr>answer := ''Chat ''\<rparr>) = EN_FR \<and>
   lastAnswerCorrect (handleAnswerSubmit (writing_start_fr\<lparr>answer := ''Chat ''\<rparr>)) = Some True \<and>
   current (writing_start_fr\<lparr>answer := ''cat''\<rparr>) = Some cat \<and>
   direction (writing_start_fr\<lparr>answer := ''cat''\<rparr>) = EN_FR \<and>
   lastAnswerCorrect (handleAnswerSubmit (writing_start_fr\<lparr>answer := ''cat''\<rparr>)) = Some False \<and>
   wrongRows (handleAnswerSubmit (writing_start_fr\<lparr>answer := ''cat''\<rparr>)) = [cat]"
proof -
  have c1: "current (writing_start\<lparr>answer := '' Cat ''\<rparr>) = Some cat
              \<and> direction (writing_start\<lparr>answer := '' Cat ''\<rparr>) = FR_EN"
    by (simp add: writing_start_eq current_def nth_opt_def)
  have c2: "current (writing_start\<lparr>answer := ''catt''\<rparr>) = Some cat
              \<and> direction (writing_start\<lparr>answer := ''catt''\<rparr>) = FR_EN"
    by (simp add: writing_start_eq current_def nth_opt_def)
  have c3: "current (writing_start_fr\<lparr>answer := ''Chat ''\<rparr>) = Some cat
              \<and> direction (writing_start_fr\<lparr>answer := ''Chat ''\<rparr>) = EN_FR"
    by (simp add: writing_start_fr_eq current_def nth_opt_def)
  have c4: "current (writing_start_fr\<lparr>answer := ''cat''\<rparr>) = Some cat
              \<and> direction (writing_start_fr\<lparr>answer := ''cat''\<rparr>) = EN_FR"
    by (simp add: writing_start_fr_eq current_def nth_opt_def)
  have e1: "toLowerCase (trim (answer (writing_start\<lparr>answer := '' Cat ''\<rparr>)))
              = toLowerCase (trim (EN cat))"
    by (simp add: cat_def string_defs)
  have e2: "toLowerCase (trim (answer (writing_start\<lparr>answer := ''catt''\<rparr>)))
              \<noteq> toLowerCase (trim (EN cat))"
    by (simp add: cat_def string_defs)
  have e3: "toLowerCase (trim (answer (writing_start_fr\<lparr>answer := ''Chat ''\<rparr>)))
              = toLowerCase (trim (FR cat))"
    by (simp add: cat_def string_defs)
  have e4: "toLowerCase (trim (answer (writing_start_fr\<lparr>answer := ''cat''\<rparr>)))
              \<noteq> toLowerCase (trim (FR cat))"
    by (simp add: cat_def string_defs)
  note t1 = writing_verdict[where s = "writing_start\<lparr>answer := '' Cat ''\<rparr>" and cur = cat,
      THEN conjunct1, rule_format, OF c1, THEN conjunct1]
  note t2 = writing_verdict[where s = "writing_start\<lparr>answer := ''catt''\<rparr>" and cur = cat,
      THEN conjunct1, rule_format, OF c2, THEN conjunct1]
  note t3 = writing_verdict[where s = "writing_start_fr\<lparr>answer := ''Chat ''\<rparr>" and cur = cat,
      THEN conjunct2, THEN conjunct1, rule_format, OF c3, THEN conjunct1]
  note t4 = writing_verdict[where s = "writing_start_fr\<lparr>answer := ''cat''\<rparr>" and cur = cat,
      THEN conjunct2, THEN conjunct1, rule_format, OF c4, THEN conjunct1]
  have v1: "lastAnswerCorrect (handleAnswerSubmit (writing_start\<lparr>answer := '' Cat ''\<rparr>)) = Some True"
    unfolding t1 using e1 by (simp only: simp_thms)
  have v2: "lastAnswerCorrect (handleAnswerSubmit (writing_start\<lparr>answer := ''catt''\<rparr>)) = Some False"
    unfolding t2 using e2 by (simp only: simp_thms)
  have v3: "lastAnswerCorrect (handleAnswerSubmit (writing_start_fr\<lparr>answer := ''Chat ''\<rparr>)) = Some True"
    unfolding t3 using e3 by (simp only: simp_thms)
  have v4: "lastAnswerCorrect (handleAnswerSubmit (writing_start_fr\<lparr>answer := ''cat''\<rparr>)) = Some False"
    unfolding t4 using e4 by (simp only: simp_thms)
  have s1: "score (handleAnswerSubmit (writing_start\<lparr>answer := '' Cat ''\<rparr>)) = \<lparr>good = 1, total' = 1\<rparr>"
    "wrongRows (handleAnswerSubmit (writing_start\<lparr>answer := '' Cat ''\<rparr>)) = []"
    by (simp_all add: scenario_1)
  have s2: "score (handleAnswerSubmit (writing_start\<lparr>answer := ''catt''\<rparr>)) = \<lparr>good = 0, total' = 1\<rparr>"
    "wrongRows (handleAnswerSubmit (writing_start\<lparr>answer := ''catt''\<rparr>)) = [cat]"
    by (simp_all add: scenario_2)
  have s4: "wrongRows (handleAnswerSubmit (writing_start_fr\<lparr>answer := ''cat''\<rparr>)) = [cat]"
    by (simp add: scenario_fr_2)
  from c1 c2 c3 c4 v1 v2 v3 v4 s1 s2 s4 show ?thesis by blast
qed

section \<open>Claims on the derived percentages\<close>

text \<open>
  Claim C10. The two percentages are defined in every state: no division by zero is
  evaluated. The accuracy is 0 when \<open>score.total\<close> is 0 and the progress is 0 when the
  working list is empty; otherwise each is the rounded quotient.
\<close>

theorem percentages_total:
  "progress s \<noteq> None \<and> accuracy s \<noteq> None \<and>
   (list' s = [] \<longrightarrow> progress s = Some 0) \<and>
   (total' (score s) = 0 \<longrightarrow> accuracy s = Some 0) \<and>
   (list' s \<noteq> [] \<longrightarrow>
      progress s = Some (Math_round (of_int (index s + 1) / of_nat (length (list' s)) * 100))) \<and>
   (total' (score s) \<noteq> 0 \<longrightarrow>
      accuracy s = Some (Math_round (of_int (good (score s))
                                      / of_int (max (total' (score s)) 1) * 100)))"
  by (auto simp: progress_def accuracy_def js_div_def max_def)

theorem percentages_total_witness:
  "list' (initState flashcards FR_EN True 0) = [] \<and>
   progress (initState flashcards FR_EN True 0) = Some 0 \<and>
   total' (score (initState flashcards FR_EN True 0)) = 0 \<and>
   accuracy (initState flashcards FR_EN True 0) = Some 0 \<and>
   list' qcm_start \<noteq> [] \<and> progress qcm_start = Some 50 \<and>
   total' (score (qcmClick ''cat'' qcm_start)) \<noteq> 0 \<and>
   accuracy (qcmClick ''cat'' qcm_start) = Some 100"
proof -
  have a: "list' (initState flashcards FR_EN True 0) = []"
    "total' (score (initState flashcards FR_EN True 0)) = 0"
    by (simp_all add: initState_def)
  have b: "progress (initState flashcards FR_EN True 0) = Some 0"
    "accuracy (initState flashcards FR_EN True 0) = Some 0"
    using percentages_total[where s = "initState flashcards FR_EN True 0"] a by blast+
  have c: "list' qcm_start \<noteq> []" "total' (score (qcmClick ''cat'' qcm_start)) \<noteq> 0"
    unfolding qcm_first_click by (simp_all add: qcm_start_eq)
  have "progress qcm_start
          = Some (Math_round (of_int (index qcm_start + 1) / of_nat (length (list' qcm_start)) * 100))"
    using percentages_total[where s = qcm_start] c(1) by blast
  moreover have "Math_round (of_int (index qcm_start + 1) / of_nat (length (list' qcm_start)) * 100)
                   = 50"
    unfolding qcm_start_eq Math_round_def by simp linarith
  ultimately have d: "progress qcm_start = Some 50" by simp
  have "accuracy (qcmClick ''cat'' qcm_start)
          = Some (Math_round (of_int (good (score (qcmClick ''cat'' qcm_start)))
                    / of_int (max (total' (score (qcmClick ''cat'' qcm_start))) 1) * 100))"
    using percentages_total[where s = "qcmClick ''cat'' qcm_start"] c(2) by blast
  moreover have "Math_round (of_int (good (score (qcmClick ''cat'' qcm_start)))
                    / of_int (max (total' (score (qcmClick ''cat'' qcm_start))) 1) * 100) = 100"
    unfolding qcm_first_click Math_round_def by simp linarith
  ultimately have e: "accuracy (qcmClick ''cat'' qcm_start) = Some 100" by simp
  from a b c d e show ?thesis by blast
qed

section \<open>Claims on the entry normalizer\<close>

lemma foldl_header:
  "foldl (\<lambda>acc (k, v). acc(f k \<mapsto> v)) m row = m ++ map_of (rev (map (\<lambda>(k, v). (f k, v)) row))"
  by (induction row arbitrary: m) (auto simp: map_add_assoc[symmetric])

lemma header_map_eq: "header_map row K = map_of (rev (normalized_headers row)) K"
  by (simp add: header_map_def normalized_headers_def foldl_header)

lemma or_empty_eq: "or_empty (map_of (rev (normalized_headers row)) K) = header_value row K"
  by (simp add: or_empty_def header_value_def split: option.split)

lemma normalizeRow_eq_spec: "normalizeRow (Some row) = normalizeRow_spec row"
  by (simp add: normalizeRow_def normalizeRow_spec_def header_map_eq or_empty_eq Let_def)

text \<open>Looking a canonical key up finds the value of the last header that normalizes to it.\<close>

lemma map_of_rev_last:
  "map_of (rev (map (\<lambda>(k, v). (f k, v)) row)) K =
     (case filter (\<lambda>(k, v). f k = K) row of
        [] \<Rightarrow> None | e # es \<Rightarrow> Some (snd (last (e # es))))"
proof (induction row rule: rev_induct)
  case Nil
  then show ?case by simp
next
  case (snoc x xs)
  then show ?case by (cases x) (auto split: list.splits)
qed

lemma header_value_last:
  "header_value row K =
     (case filter (\<lambda>(k, v). toUpperCase (trim k) = K) row of
        [] \<Rightarrow> [] | e # es \<Rightarrow> snd (last (e # es)))"
  by (simp add: header_value_def normalized_headers_def map_of_rev_last split: list.split)

lemma trim_prefix: "\<exists>w. dropWhile isSpace s = trim s @ w"
proof -
  let ?t = "dropWhile isSpace s"
  have "rev ?t = takeWhile isSpace (rev ?t) @ dropWhile isSpace (rev ?t)" by simp
  then have "?t = rev (dropWhile isSpace (rev ?t)) @ rev (takeWhile isSpace (rev ?t))"
    by (metis rev_append rev_rev_ident)
  then show ?thesis by (auto simp: trim_def)
qed

lemma trimmed_trim: "trimmed (trim s)"
proof (cases "trim s = []")
  case True
  then show ?thesis by (simp add: trimmed_def)
next
  case False
  obtain w where w: "dropWhile isSpace s = trim s @ w" using trim_prefix by blast
  then have "hd (trim s) = hd (dropWhile isSpace s)" using False by simp
  moreover have "dropWhile isSpace s \<noteq> []" using w False by simp
  ultimately have h: "\<not> isSpace (hd (trim s))" using hd_dropWhile by metis
  have ne: "dropWhile isSpace (rev (dropWhile isSpace s)) \<noteq> []" using False by (simp add: trim_def)
  have "last (trim s) = hd (dropWhile isSpace (rev (dropWhile isSpace s)))"
    using ne by (simp add: trim_def last_rev)
  then have "\<not> isSpace (last (trim s))" using hd_dropWhile[OF ne] by simp
  then show ?thesis using h by (simp add: trimmed_def)
qed

lemma headers_EN:
  "toUpperCase (trim ''en'') = ''EN'' \<and> toUpperCase (trim ''En'') = ''EN'' \<and>
   toUpperCase (trim '' EN '') = ''EN''"
  by (simp add: string_defs)

text \<open>
  Claim C5. \<open>normalizeRow\<close> computes what the specification words: every header key is
  trimmed and put in upper case before the lookup, so that \<open>en\<close>, \<open>En\<close> and \<open> EN \<close>
  are the key EN; EN, FR and EG are the values of the last header that normalizes to each
  key, and the empty string when there is none; the three values are trimmed; the result
  is null exactly when the trimmed EN and the trimmed FR are both empty; and otherwise it
  is the entry of the three trimmed values, whatever EG is.
\<close>

theorem normalizeRow_refines:
  "normalizeRow None = None \<and>
   normalizeRow (Some row) = normalizeRow_spec row \<and>
   (normalizeRow (Some row) = None
      \<longleftrightarrow> trim (header_value row ''EN'') = [] \<and> trim (header_value row ''FR'') = []) \<and>
   (\<forall>v. normalizeRow (Some row) = Some v \<longrightarrow>
      EN v = trim (header_value row ''EN'') \<and> FR v = trim (header_value row ''FR'') \<and>
      EG v = Some (trim (header_value row ''EG'')) \<and>
      trimmed (EN v) \<and> trimmed (FR v) \<and> trimmed (trim (header_value row ''EG'')) \<and>
      (EN v \<noteq> [] \<or> FR v \<noteq> [])) \<and>
   header_value row K =
     (case filter (\<lambda>(k, v). toUpperCase (trim k) = K) row of
        [] \<Rightarrow> [] | e # es \<Rightarrow> snd (last (e # es))) \<and>
   toUpperCase (trim ''en'') = ''EN'' \<and> toUpperCase (trim ''En'') = ''EN'' \<and>
   toUpperCase (trim '' EN '') = ''EN''"
proof -
  have a: "normalizeRow None = None" by (simp add: normalizeRow_def)
  have b: "normalizeRow (Some row) = None
      \<longleftrightarrow> trim (header_value row ''EN'') = [] \<and> trim (header_value row ''FR'') = []"
    by (simp add: normalizeRow_eq_spec normalizeRow_spec_def)
  have c: "\<forall>v. normalizeRow (Some row) = Some v \<longrightarrow>
      EN v = trim (header_value row ''EN'') \<and> FR v = trim (header_value row ''FR'') \<and>
      EG v = Some (trim (header_value row ''EG'')) \<and>
      trimmed (EN v) \<and> trimmed (FR v) \<and> trimmed (trim (header_value row ''EG'')) \<and>
      (EN v \<noteq> [] \<or> FR v \<noteq> [])"
    by (auto simp: normalizeRow_eq_spec normalizeRow_spec_def trimmed_trim split: if_splits)
  show ?thesis
    using a b c normalizeRow_eq_spec header_value_last headers_EN by blast
qed

lemma normalize_accept:
  "normalizeRow (Some [('' en '', ''hello ''), (''Fr'', ''bonjour''), (''note'', ''x'')])
     = Some \<lparr>EN = ''hello'', FR = ''bonjour'', EG = Some []\<rparr>"
  by (simp add: normalizeRow_def header_map_def or_empty_def Let_def string_defs)

lemma normalize_reject:
  "normalizeRow (Some [(''EN'', ''  ''), (''EG'', ''only an example'')]) = None"
  by (simp add: normalizeRow_def header_map_def or_empty_def Let_def string_defs)

theorem normalizeRow_refines_witness:
  "normalizeRow (Some [('' en '', ''hello ''), (''Fr'', ''bonjour''), (''note'', ''x'')])
     = Some \<lparr>EN = ''hello'', FR = ''bonjour'', EG = Some []\<rparr> \<and>
   trim (header_value [('' en '', ''hello ''), (''Fr'', ''bonjour''), (''note'', ''x'')] ''EN'')
     = ''hello'' \<and>
   trimmed ''hello'' \<and>
   normalizeRow (Some [(''EN'', ''  ''), (''EG'', ''only an example'')]) = None \<and>
   trim (header_value [(''EN'', ''  ''), (''EG'', ''only an example'')] ''EN'') = [] \<and>
   trim (header_value [(''EN'', ''  ''), (''EG'', ''only an example'')] ''FR'') = []"
proof -
  note t1 = normalizeRow_refines[where
      row = "[('' en '', ''hello ''), (''Fr'', ''bonjour''), (''note'', ''x'')]"]
  note t2 = normalizeRow_refines[where row = "[(''EN'', ''  ''), (''EG'', ''only an example'')]"]
  have a: "normalizeRow (Some [('' en '', ''hello ''), (''Fr'', ''bonjour''), (''note'', ''x'')])
     = Some \<lparr>EN = ''hello'', FR = ''bonjour'', EG = Some []\<rparr>"
    by (rule normalize_accept)
  have "EN \<lparr>EN = ''hello'', FR = ''bonjour'', EG = Some []\<rparr>
          = trim (header_value [('' en '', ''hello ''), (''Fr'', ''bonjour''), (''note'', ''x'')] ''EN'')
        \<and> trimmed (EN \<lparr>EN = ''hello'', FR = ''bonjour'', EG = Some []\<rparr>)"
    using t1 a by blast
  note f = this
  have b: "trim (header_value [('' en '', ''hello ''), (''Fr'', ''bonjour''), (''note'', ''x'')] ''EN'')
     = ''hello''" "trimmed ''hello''"
    using f[THEN conjunct1, symmetric] f[THEN conjunct2] by (simp_all only: Vocab.select_convs)
  have c: "normalizeRow (Some [(''EN'', ''  ''), (''EG'', ''only an example'')]) = None"
    by (rule normalize_reject)
  have d: "trim (header_value [(''EN'', ''  ''), (''EG'', ''only an example'')] ''EN'') = [] \<and>
   trim (header_value [(''EN'', ''  ''), (''EG'', ''only an example'')] ''FR'') = []"
    using t2 c by blast
  from a b c d show ?thesis by blast
qed

section \<open>Claims on the multiple choice options\<close>

lemma indexOf_from_range:
  "x \<in> set xs \<Longrightarrow> int k \<le> indexOf_from k xs x \<and> indexOf_from k xs x < int k + int (length xs)"
proof (induction xs arbitrary: k)
  case Nil
  then show ?case by simp
next
  case (Cons y ys)
  show ?case
  proof (cases "y = x")
    case True
    then show ?thesis by simp
  next
    case False
    then have "x \<in> set ys" using Cons.prems by simp
    from Cons.IH[OF this, of "Suc k"] False show ?thesis by simp
  qed
qed

lemma indexOf_valid: "x \<in> set xs \<Longrightarrow> valid_index (length xs) (Some (indexOf xs x))"
  using indexOf_from_range[of x xs 0] by (simp add: valid_index_def indexOf_def)

lemma qcmOptions_some:
  assumes c: "current s = Some cur"
  shows "qcmOptions rnd k s =
     shuffle rnd (k + pickN_calls (length (list' s))
                        (Some (indexOf (map (target (direction s)) (list' s))
                                 (target (direction s) cur))))
       (target (direction s) cur #
        pickN rnd k (map (target (direction s)) (list' s)) 3
          (Some (indexOf (map (target (direction s)) (list' s)) (target (direction s) cur))))"
proof -
  have "list' s \<noteq> []" using current_in_list[OF c] by auto
  then show ?thesis using c by (simp add: qcmOptions_def Let_def)
qed

lemma length_qcmOptions:
  assumes c: "current s = Some cur"
  shows "length (qcmOptions rnd k s) = min 4 (length (list' s))"
proof -
  let ?pool = "map (target (direction s)) (list' s)"
  let ?correct = "target (direction s) cur"
  have "?correct \<in> set ?pool" using current_in_list[OF c] by simp
  then have v: "valid_index (length ?pool) (Some (indexOf ?pool ?correct))"
    by (rule indexOf_valid)
  have "int (length (pickN rnd k ?pool 3 (Some (indexOf ?pool ?correct))))
          = min 3 (int (length ?pool) - 1)"
    using length_pickN_idxs[of 3 rnd k "length ?pool" "Some (indexOf ?pool ?correct)"] v
    by (simp add: pickN_def)
  moreover have "1 \<le> length (list' s)" using current_in_list[OF c] by (cases "list' s") auto
  ultimately have "length (pickN rnd k ?pool 3 (Some (indexOf ?pool ?correct))) + 1
                     = min 4 (length (list' s))"
    by (simp only: length_map)
  then show ?thesis
    unfolding qcmOptions_some[OF c] length_shuffle by simp
qed

lemma set_pickN_subset:
  assumes "0 \<le> n"
  shows "set (pickN rnd k arr n av) \<subseteq> set arr"
  using set_pickN_idxs[OF assms, of rnd k "length arr" av] by (auto simp: pickN_def)

text \<open>
  Claim C7. With a current entry (so the working list is not empty), for every random
  source, the option set has between 1 and 4 members (as many as the working list has
  entries, up to 4), is not empty, and contains the target field of the current entry:
  its \<open>EN\<close> in the direction from French to English, its \<open>FR\<close> in the direction from
  English to French; every option is the target field of an entry of the working list. The
  option set is empty when the working list is empty or there is no current entry.
\<close>

theorem qcmOptions_bounds:
  "(current s = Some cur \<longrightarrow>
      1 \<le> length (qcmOptions rnd k s) \<and> length (qcmOptions rnd k s) \<le> 4 \<and>
      length (qcmOptions rnd k s) = min 4 (length (list' s)) \<and>
      qcmOptions rnd k s \<noteq> [] \<and>
      (direction s = FR_EN \<longrightarrow>
         EN cur \<in> set (qcmOptions rnd k s) \<and> set (qcmOptions rnd k s) \<subseteq> EN ` set (list' s)) \<and>
      (direction s = EN_FR \<longrightarrow>
         FR cur \<in> set (qcmOptions rnd k s) \<and> set (qcmOptions rnd k s) \<subseteq> FR ` set (list' s))) \<and>
   (list' s = [] \<or> current s = None \<longrightarrow> qcmOptions rnd k s = [])"
proof (intro conjI impI)
  assume "list' s = [] \<or> current s = None"
  then show "qcmOptions rnd k s = []"
    by (auto simp: qcmOptions_def current_def nth_opt_def)
next
  assume c: "current s = Some cur"
  have ne: "list' s \<noteq> []" using current_in_list[OF c] by auto
  show l: "length (qcmOptions rnd k s) = min 4 (length (list' s))"
    by (rule length_qcmOptions[OF c])
  show "1 \<le> length (qcmOptions rnd k s)" using l ne by (cases "list' s") simp_all
  then show "qcmOptions rnd k s \<noteq> []" by auto
  show "length (qcmOptions rnd k s) \<le> 4" using l by simp
  have sub: "set (qcmOptions rnd k s) \<subseteq> target (direction s) ` set (list' s)"
    unfolding qcmOptions_some[OF c] set_shuffle
    using set_pickN_subset[of 3 rnd k "map (target (direction s)) (list' s)"
        "Some (indexOf (map (target (direction s)) (list' s)) (target (direction s) cur))"]
      current_in_list[OF c]
    by auto
  have mem: "target (direction s) cur \<in> set (qcmOptions rnd k s)"
    unfolding qcmOptions_some[OF c] set_shuffle by simp
  show "EN cur \<in> set (qcmOptions rnd k s)" "set (qcmOptions rnd k s) \<subseteq> EN ` set (list' s)"
    if "direction s = FR_EN"
    using mem sub that by (auto simp: target_def)
  show "FR cur \<in> set (qcmOptions rnd k s)" "set (qcmOptions rnd k s) \<subseteq> FR ` set (list' s)"
    if "direction s = EN_FR"
    using mem sub that by (auto simp: target_def)
qed

lemma qcmOptions_start: "qcmOptions rnd_zero 0 qcm_start = [''dog'', ''cat'']"
  by (simp add: qcm_start_eq qcmOptions_def current_def nth_opt_def target_def cat_def dog_def
      indexOf_def pickN_def pickN_idxs_def pickN_calls_def candidate_idxs_def slice0_def
      shuffle_def swap_def rnd_zero_def random_index_zero Let_def eval_nat_numeral)

lemma qcmOptions_start_fr: "qcmOptions rnd_zero 0 qcm_start_fr = [''chien'', ''chat'']"
  by (simp add: qcm_start_fr_eq qcmOptions_def current_def nth_opt_def target_def cat_def
      dog_def indexOf_def pickN_def pickN_idxs_def pickN_calls_def candidate_idxs_def slice0_def
      shuffle_def swap_def rnd_zero_def random_index_zero Let_def eval_nat_numeral)

theorem qcmOptions_bounds_witness:
  "current qcm_start = Some cat \<and> direction qcm_start = FR_EN \<and>
   qcmOptions rnd_zero 0 qcm_start = [''dog'', ''cat''] \<and>
   length (qcmOptions rnd_zero 0 qcm_start) = min 4 (length (list' qcm_start)) \<and>
   EN cat \<in> set (qcmOptions rnd_zero 0 qcm_start) \<and>
   current qcm_start_fr = Some cat \<and> direction qcm_start_fr = EN_FR \<and>
   qcmOptions rnd_zero 0 qcm_start_fr = [''chien'', ''chat''] \<and>
   FR cat \<in> set (qcmOptions rnd_zero 0 qcm_start_fr) \<and>
   EN cat \<notin> set (qcmOptions rnd_zero 0 qcm_start_fr) \<and>
   list' (initState qcm FR_EN True 0) = [] \<and>
   qcmOptions rnd_zero 0 (initState qcm FR_EN True 0) = []"
proof -
  have c: "current qcm_start = Some cat" "direction qcm_start = FR_EN"
    by (simp_all add: qcm_start_eq current_def nth_opt_def)
  have cf: "current qcm_start_fr = Some cat" "direction qcm_start_fr = EN_FR"
    by (simp_all add: qcm_start_fr_eq current_def nth_opt_def)
  have e: "list' (initState qcm FR_EN True 0) = []"
    by (simp add: initState_def)
  note t1 = qcmOptions_bounds[where s = qcm_start and cur = cat and rnd = rnd_zero and k = 0]
  note t2 = qcmOptions_bounds[where s = "initState qcm FR_EN True 0" and rnd = rnd_zero and k = 0]
  note t3 = qcmOptions_bounds[where s = qcm_start_fr and cur = cat and rnd = rnd_zero and k = 0]
  have a: "length (qcmOptions rnd_zero 0 qcm_start) = min 4 (length (list' qcm_start))"
    "EN cat \<in> set (qcmOptions rnd_zero 0 qcm_start)"
    using t1 c by blast+
  have af: "FR cat \<in> set (qcmOptions rnd_zero 0 qcm_start_fr)"
    using t3 cf by blast
  have nf: "EN cat \<notin> set (qcmOptions rnd_zero 0 qcm_start_fr)"
    unfolding qcmOptions_start_fr by (simp add: cat_def)
  have b: "qcmOptions rnd_zero 0 (initState qcm FR_EN True 0) = []"
    using t2 e by blast
  from c cf e a af nf b qcmOptions_start qcmOptions_start_fr show ?thesis by blast
qed

end
